theory Spec2Isabelle
  imports Main "HOL-Library.Word" "HOL-Library.Sublist" "HOL-Library.Char_ord"
    "HOL-Library.List_Lexorder"
begin

unbundle bit_operations_syntax

section \<open>VBoxInstance: a shallow embedding of VBoxInstance.cpp\<close>

text \<open>
  The hypervisor is driven through its command line. A call
  \<^verbatim>\<open>this->exec(cmd, &lines, &err, execConfig)\<close> is modelled by a function from the
  command line to the exit code, the captured output lines and the error output; the
  named mutexes around the calls serialise callers and do not change any result, so
  they are not part of the model.
\<close>

subsection \<open>Strings, exceptions and std::map\<close>

datatype exn = OutOfRange | NullDeref

type_synonym exec = "string \<Rightarrow> int \<times> string list \<times> string"

text \<open>\<^verbatim>\<open>size_t\<close> subtraction wraps around modulo \<open>2 ^ 64\<close>.\<close>

definition size_sub :: "nat \<Rightarrow> nat \<Rightarrow> nat" where
  "size_sub a b = (a + 2 ^ 64 - b) mod 2 ^ 64"

text \<open>
  \<^verbatim>\<open>s.substr(pos, n)\<close> throws \<^verbatim>\<open>std::out_of_range\<close> when \<open>pos\<close> is
  beyond the end of \<open>s\<close>; otherwise it yields at most \<open>n\<close> characters from \<open>pos\<close>.
  \<^verbatim>\<open>s.substr(pos)\<close> runs to the end of the string.
\<close>

definition substr :: "string \<Rightarrow> nat \<Rightarrow> nat \<Rightarrow> exn + string" where
  "substr s pos n = (if length s < pos then Inl OutOfRange else Inr (take n (drop pos s)))"

definition substr_from :: "string \<Rightarrow> nat \<Rightarrow> exn + string" where
  "substr_from s pos = (if length s < pos then Inl OutOfRange else Inr (drop pos s))"

text \<open>
  \<^verbatim>\<open>s.find(pat)\<close>: the index of the first occurrence of \<open>pat\<close> in \<open>s\<close>;
  \<open>None\<close> stands for \<^verbatim>\<open>string::npos\<close>.
\<close>

fun str_find :: "string \<Rightarrow> string \<Rightarrow> nat option" where
  "str_find [] pat = (if pat = [] then Some 0 else None)"
| "str_find (c # cs) pat =
     (if prefix pat (c # cs) then Some 0 else map_option Suc (str_find cs pat))"

text \<open>
  A \<^verbatim>\<open>std::map\<close> is an association list kept in the order of its keys, which is the
  order its iterators walk. \<open>map_put\<close> is \<^verbatim>\<open>m[k] = v\<close>, \<open>map_erase\<close> erases the
  entry an iterator found for \<open>k\<close> points at.
\<close>

fun map_put :: "'k::linorder \<Rightarrow> 'v \<Rightarrow> ('k \<times> 'v) list \<Rightarrow> ('k \<times> 'v) list" where
  "map_put k v [] = [(k, v)]"
| "map_put k v ((k', v') # m) =
     (if k < k' then (k, v) # (k', v') # m
      else if k = k' then (k, v) # m
      else (k', v') # map_put k v m)"

fun map_erase :: "'k \<Rightarrow> ('k \<times> 'v) list \<Rightarrow> ('k \<times> 'v) list" where
  "map_erase k [] = []"
| "map_erase k ((k', v') # m) = (if k' = k then m else (k', v') # map_erase k m)"

subsection \<open>getProperty\<close>

definition getProperty :: "exec \<Rightarrow> string \<Rightarrow> string \<Rightarrow> exn + string" where
  "getProperty exec uuid name =
     (case exec (''guestproperty get '' @ uuid @ '' '' @ [CHR 0x22] @ name @ [CHR 0x22]) of
        (ans, lines, err) \<Rightarrow>
          if ans \<noteq> 0 then Inr ''''
          else if lines = [] then Inr ''''
          else
            (case substr (hd lines) 0 6 of
               Inl e \<Rightarrow> Inl e
             | Inr p \<Rightarrow> if p = ''Value:'' then substr_from (hd lines) 7 else Inr ''''))"

subsection \<open>getAllProperties\<close>






subsection \<open>Status codes and helpers of the utilities library\<close>

text \<open>
  Modelled from the spec: the \<^verbatim>\<open>HVE_*\<close> macros are defined in a header that is not
  part of the sources at hand. They are the distinct status codes of the error
  taxonomy; \<open>HVE_OK\<close> is the code \<^verbatim>\<open>0\<close> that \<^verbatim>\<open>loadSessions\<close> returns and
  that the exit codes of \<^verbatim>\<open>exec\<close> are compared with, \<open>HVE_OTHER\<close> carries any other
  number.
\<close>

datatype hv_status =
  HVE_OK | HVE_QUERY_ERROR | HVE_EXTERNAL_ERROR | HVE_NOT_VALIDATED | HVE_NOT_TRUSTED
  | HVE_ALREADY_EXISTS | HVE_OTHER int

text \<open>
  The string helpers of the utilities library are not part of the sources at hand and
  are parameters of the model: \<open>trimSplit\<close> gives the \<^verbatim>\<open>parts\<close> vector it fills
  (its return value is the number of parts), \<open>hex_ston\<close> and \<open>ston\<close> read a number,
  \<open>parseLines\<close> and \<open>tokenize\<close> give the map they build from the lines,
  \<open>version_set\<close> the version a version line is parsed into, \<open>systemPath\<close> the
  path in the notation of the host.
\<close>

record HVVersion =
  major :: int
  minor :: int
  build :: int
  verString :: string

record utilities =
  trimSplit :: "string \<Rightarrow> string list"
  hex_ston :: "string \<Rightarrow> 32 word"
  ston :: "string \<Rightarrow> int"
  parseLines :: "string list \<Rightarrow> (string \<times> string) list"
  tokenize :: "string list \<Rightarrow> (string \<times> string) list"
  version_set :: "string \<Rightarrow> HVVersion"
  systemPath :: "string \<Rightarrow> string"

text \<open>C++ integer division truncates towards zero.\<close>

definition tdiv :: "int \<Rightarrow> int \<Rightarrow> int" where
  "tdiv a b = sgn a * sgn b * (\<bar>a\<bar> div \<bar>b\<bar>)"

subsection \<open>getCapabilities\<close>

record HVINFO_CAPS =
  cpu_vendor :: string
  cpu_featuresA :: "32 word"
  cpu_featuresB :: "32 word"
  cpu_featuresC :: "32 word"
  cpu_featuresD :: "32 word"
  cpu_stepping :: "32 word"
  cpu_model :: "32 word"
  cpu_family :: "32 word"
  cpu_type :: "32 word"
  cpu_exmodel :: "32 word"
  cpu_exfamily :: "32 word"
  cpu_hasVM :: bool
  cpu_hasVT :: bool
  cpu_has64bit :: bool
  max_cpus :: int
  max_memory :: int
  max_disk :: int

text \<open>An \<^verbatim>\<open>int\<close> stored into a \<^verbatim>\<open>char\<close> keeps its low eight bits.\<close>

definition to_char :: "32 word \<Rightarrow> char" where
  "to_char w = char_of (unat w)"

text \<open>
  The body of the loop over the \<^verbatim>\<open>list hostcpuids\<close> rows. Reading \<^verbatim>\<open>parts[k]\<close>
  past the end of the vector is undefined in C++; the model reports it as an error.
\<close>

definition cpuid_row :: "utilities \<Rightarrow> HVINFO_CAPS \<Rightarrow> string \<Rightarrow> exn + HVINFO_CAPS" where
  "cpuid_row U caps line =
     (let parts = trimSplit U line in
      if length parts = 0 then Inr caps
      else if parts ! 0 = ''00000000'' then
        (if length parts < 5 then Inl OutOfRange
         else
          (let ebx = hex_ston U (parts ! 2);
               edx = hex_ston U (parts ! 4);
               ecx = hex_ston U (parts ! 3)
           in Inr (caps\<lparr>cpu_vendor :=
                [to_char (ebx AND 0xFF),
                 to_char (drop_bit 8 (ebx AND 0xFF00)),
                 to_char (drop_bit 16 (ebx AND 0xFF0000)),
                 to_char (drop_bit 24 (ebx AND 0xFF000000)),
                 to_char (edx AND 0xFF),
                 to_char (drop_bit 8 (edx AND 0xFF00)),
                 to_char (drop_bit 16 (edx AND 0xFF0000)),
                 to_char (drop_bit 24 (edx AND 0xFF000000)),
                 to_char (ecx AND 0xFF),
                 to_char (drop_bit 8 (ecx AND 0xFF00)),
                 to_char (drop_bit 16 (ecx AND 0xFF0000)),
                 to_char (drop_bit 24 (ecx AND 0xFF000000)),
                 CHR 0x00]\<rparr>)))
      else if parts ! 0 = ''00000001'' then
        (if length parts < 5 then Inl OutOfRange
         else
          (let v = hex_ston U (parts ! 1)
           in Inr (caps\<lparr>cpu_featuresA := hex_ston U (parts ! 3),
                        cpu_featuresB := hex_ston U (parts ! 4),
                        cpu_stepping := v AND 0xF,
                        cpu_model := drop_bit 4 (v AND 0xF0),
                        cpu_family := drop_bit 8 (v AND 0xF00),
                        cpu_type := drop_bit 12 (v AND 0x3000),
                        cpu_exmodel := drop_bit 16 (v AND 0xF0000),
                        cpu_exfamily := drop_bit 20 (v AND 0xFF00000)\<rparr>)))
      else if parts ! 0 = ''80000001'' then
        (if length parts < 5 then Inl OutOfRange
         else Inr (caps\<lparr>cpu_featuresC := hex_ston U (parts ! 3),
                        cpu_featuresD := hex_ston U (parts ! 4)\<rparr>))
      else Inr caps)"

fun cpuid_rows :: "utilities \<Rightarrow> HVINFO_CAPS \<Rightarrow> string list \<Rightarrow> exn + HVINFO_CAPS" where
  "cpuid_rows U caps [] = Inr caps"
| "cpuid_rows U caps (line # rest) =
     (case cpuid_row U caps line of
        Inl e \<Rightarrow> Inl e
      | Inr caps1 \<Rightarrow> cpuid_rows U caps1 rest)"

definition update_flags :: "HVINFO_CAPS \<Rightarrow> HVINFO_CAPS" where
  "update_flags caps =
     caps\<lparr>cpu_hasVM := False,
          cpu_hasVT := (cpu_featuresA caps AND 0x20 \<noteq> 0 \<or> cpu_featuresC caps AND 0x2 \<noteq> 0),
          cpu_has64bit := (cpu_featuresC caps AND 0x20000000 \<noteq> 0)\<rparr>"

definition system_limits :: "utilities \<Rightarrow> HVINFO_CAPS \<Rightarrow> string list \<Rightarrow> HVINFO_CAPS" where
  "system_limits U caps lines =
     (let caps0 = caps\<lparr>max_cpus := 1, max_memory := 1024, max_disk := 2048\<rparr>;
          data = parseLines U lines;
          caps1 = (case map_of data ''Maximum guest RAM size'' of
                     None \<Rightarrow> caps0
                   | Some s \<Rightarrow> caps0\<lparr>max_memory := ston U s\<rparr>);
          caps2 = (case map_of data ''Virtual disk limit (info)'' of
                     None \<Rightarrow> caps1
                   | Some s \<Rightarrow> caps1\<lparr>max_disk := tdiv (ston U s) 1024\<rparr>)
      in case map_of data ''Maximum guest CPU count'' of
           None \<Rightarrow> caps2
         | Some s \<Rightarrow> caps2\<lparr>max_cpus := ston U s\<rparr>)"

definition getCapabilities ::
  "exec \<Rightarrow> utilities \<Rightarrow> HVINFO_CAPS \<Rightarrow> exn + hv_status \<times> HVINFO_CAPS" where
  "getCapabilities exec U caps =
     (case exec ''list hostcpuids'' of
        (ans, lines, err) \<Rightarrow>
          if ans \<noteq> 0 then Inr (HVE_QUERY_ERROR, caps)
          else if lines = [] then Inr (HVE_EXTERNAL_ERROR, caps)
          else
            (case cpuid_rows U caps lines of
               Inl e \<Rightarrow> Inl e
             | Inr caps1 \<Rightarrow>
                (let caps2 = update_flags caps1 in
                 case exec ''list systemproperties'' of
                   (ans2, lines2, err2) \<Rightarrow>
                     if ans2 \<noteq> 0 then Inr (HVE_QUERY_ERROR, caps2)
                     else if lines2 = [] then Inr (HVE_EXTERNAL_ERROR, caps2)
                     else Inr (HVE_OK, system_limits U caps2 lines2))))"

text \<open>
  The reading of the specification: the row that decides a leaf is the last row of
  that leaf, and a register is decoded into four characters, low byte first.
\<close>

definition last_row :: "utilities \<Rightarrow> string \<Rightarrow> string list \<Rightarrow> string list option" where
  "last_row U leaf lines =
     map_option (trimSplit U)
       (find (\<lambda>l. trimSplit U l \<noteq> [] \<and> hd (trimSplit U l) = leaf) (rev lines))"

definition le_chars :: "32 word \<Rightarrow> string" where
  "le_chars w = map (\<lambda>k. char_of (unat (drop_bit (8 * k) w) mod 256)) [0, 1, 2, 3]"

subsection \<open>The session registry\<close>

text \<open>
  Modelled from the spec: the session classes are declared in headers that are not
  part of the sources at hand. A session has the fields the registry reads and
  writes: its \<open>uuid\<close>, its \<open>parameters\<close> (a string map; \<open>pm_get\<close> is
  \<^verbatim>\<open>get\<close> with the empty string as default), the state that
  \<^verbatim>\<open>local->getNum<int>("state")\<close> reads, and the signed counter \<open>instances\<close> of
  open handles. \<^verbatim>\<open>abort()\<close> and \<^verbatim>\<open>hvNotifyDestroyed()\<close> are recorded as
  flags. Of the states only \<open>SS_MISSING\<close> is told apart by the registry.
\<close>

datatype session_state = SS_MISSING | SS_OTHER nat

record HVSession =
  uuid :: string
  parameters :: "(string \<times> string) list"
  local_state :: session_state
  instances :: int
  aborted :: bool
  destroyed :: bool

definition pm_get :: "(string \<times> string) list \<Rightarrow> string \<Rightarrow> string" where
  "pm_get m k = (case map_of m k of None \<Rightarrow> [] | Some v \<Rightarrow> v)"

text \<open>
  A persisted descriptor (a \<^verbatim>\<open>LocalConfig\<close> of the runtime directory): its keys and
  the saved state of the session.
\<close>

record LocalConfig =
  entries :: "(string \<times> string) list"
  saved_state :: session_state

definition contains :: "LocalConfig \<Rightarrow> string \<Rightarrow> bool" where
  "contains cfg k = (map_of (entries cfg) k \<noteq> None)"

text \<open>
  Modelled from the spec: the constructor of \<^verbatim>\<open>VBoxSession\<close> is not part of the
  sources at hand. A session reconstructed from a descriptor takes its identity and
  parameters from it and has no open handle.
\<close>

definition VBoxSession_new :: "LocalConfig \<Rightarrow> HVSession" where
  "VBoxSession_new cfg =
     \<lparr>uuid = pm_get (entries cfg) ''uuid'', parameters = entries cfg,
      local_state = saved_state cfg, instances = 0, aborted = False, destroyed = False\<rparr>"

text \<open>
  The instance. Sessions are shared objects (\<^verbatim>\<open>HVSessionPtr\<close>): \<open>heap\<close> maps a
  reference to the object it points at, \<open>sessions\<close> is the registry
  \<^verbatim>\<open>std::map<std::string, HVSessionPtr>\<close>, \<open>openSessions\<close> the
  \<^verbatim>\<open>std::list<HVSessionPtr>\<close> of open sessions, \<open>disk\<close> the descriptors of the
  runtime directory by file name.
\<close>

record VBoxInstance =
  heap :: "nat \<Rightarrow> HVSession"
  next_ref :: nat
  sessions :: "(string \<times> nat) list"
  openSessions :: "nat list"
  disk :: "(string \<times> LocalConfig) list"
  sessionLoaded :: bool
  vboxDrvKernelLoaded :: bool
  reflectionValid :: bool
  version :: HVVersion
  hvGuestAdditions :: string

definition forRuntime :: "(string \<times> LocalConfig) list \<Rightarrow> string \<Rightarrow> LocalConfig" where
  "forRuntime d name =
     (case map_of d name of
        None \<Rightarrow> \<lparr>entries = [], saved_state = SS_MISSING\<rparr>
      | Some cfg \<Rightarrow> cfg)"

definition enumFiles :: "(string \<times> LocalConfig) list \<Rightarrow> string \<Rightarrow> string list" where
  "enumFiles d pre = filter (prefix pre) (map fst d)"

definition clear_file ::
  "string \<Rightarrow> (string \<times> LocalConfig) list \<Rightarrow> (string \<times> LocalConfig) list" where
  "clear_file name d = filter (\<lambda>f. fst f \<noteq> name) d"

text \<open>
  Erasing from the open list the first session with a given uuid. In
  \<open>allocateSession\<close> the argument \<open>guid\<close> is what \<^verbatim>\<open>newGUID()\<close> returned.
\<close>

fun erase_open :: "(nat \<Rightarrow> HVSession) \<Rightarrow> string \<Rightarrow> nat list \<Rightarrow> nat list" where
  "erase_open h u [] = []"
| "erase_open h u (r # rs) = (if uuid (h r) = u then rs else r # erase_open h u rs)"

definition allocateSession :: "VBoxInstance \<Rightarrow> string \<Rightarrow> nat \<times> VBoxInstance" where
  "allocateSession st guid =
     (let name = ''vbsess-'' @ guid;
          cfg0 = forRuntime (disk st) name;
          cfg = cfg0\<lparr>entries := map_put ''uuid'' guid (entries cfg0)\<rparr>;
          session = next_ref st
      in (session,
          st\<lparr>heap := (heap st)(session := VBoxSession_new cfg),
             next_ref := Suc session,
             sessions := map_put guid session (sessions st),
             disk := (name, cfg) # clear_file name (disk st)\<rparr>))"

definition sessionDelete :: "VBoxInstance \<Rightarrow> nat \<Rightarrow> VBoxInstance" where
  "sessionDelete st session =
     (let u = uuid (heap st session) in
      case map_of (sessions st) u of
        None \<Rightarrow> st
      | Some sess \<Rightarrow>
         (let st1 =
                (if list_ex (\<lambda>openSess. uuid (heap st openSess) = u) (openSessions st)
                 then st\<lparr>openSessions := erase_open (heap st) u (openSessions st),
                         heap := (heap st)(sess := (heap st sess)\<lparr>destroyed := True\<rparr>)\<rparr>
                 else st)
          in st1\<lparr>sessions := map_erase u (sessions st1),
                 disk := clear_file (''vbsess-'' @ u) (disk st1)\<rparr>))"

definition sessionClose :: "VBoxInstance \<Rightarrow> nat \<Rightarrow> VBoxInstance" where
  "sessionClose st session =
     (let n = instances (heap st session) - 1;
          st1 = st\<lparr>heap := (heap st)(session := (heap st session)\<lparr>instances := n\<rparr>)\<rparr>
      in if n > 0 then st1
         else
          (let st2 = st1\<lparr>heap := (heap st1)(session := (heap st1 session)\<lparr>aborted := True\<rparr>)\<rparr>;
               st3 = st2\<lparr>openSessions :=
                        erase_open (heap st2) (uuid (heap st2 session)) (openSessions st2)\<rparr>
           in if local_state (heap st3 session) = SS_MISSING then sessionDelete st3 session
              else st3))"

text \<open>
  Modelled from the spec: \<^verbatim>\<open>HVInstance::sessionOpen\<close> and \<^verbatim>\<open>VBoxSession::open\<close>, which
  \<^verbatim>\<open>VBoxInstance::sessionOpen\<close> calls, are not part of the sources at hand. Opening
  a registered session increments its count of open handles, puts it on the list of
  open sessions and refreshes its state; the refreshed state is what the hypervisor
  reports.
\<close>

definition sessionOpen :: "VBoxInstance \<Rightarrow> nat \<Rightarrow> session_state \<Rightarrow> VBoxInstance" where
  "sessionOpen st session refreshed =
     st\<lparr>heap := (heap st)(session := (heap st session)
            \<lparr>instances := instances (heap st session) + 1, local_state := refreshed\<rparr>),
        openSessions :=
          (if session \<in> set (openSessions st) then openSessions st
           else openSessions st @ [session])\<rparr>"

subsection \<open>loadSessions\<close>

text \<open>Step 1: the descriptors of the runtime directory, in the order they are listed.\<close>

fun load_disk :: "VBoxInstance \<Rightarrow> string list \<Rightarrow> VBoxInstance" where
  "load_disk st [] = st"
| "load_disk st (sessName # rest) =
     (let sessConfig = forRuntime (disk st) sessName in
      if \<not> contains sessConfig ''name'' then load_disk st rest
      else if \<not> contains sessConfig ''uuid'' then load_disk st rest
      else load_disk
             (st\<lparr>heap := (heap st)(next_ref st := VBoxSession_new sessConfig),
                 next_ref := Suc (next_ref st),
                 sessions := map_put (pm_get (entries sessConfig) ''uuid'') (next_ref st)
                               (sessions st)\<rparr>)
             rest)"

text \<open>Step 2: the map of the machines the hypervisor lists, from the tokenized lines.\<close>

fun collect_vms ::
  "(string \<times> string) list \<Rightarrow> (string \<times> string) list \<Rightarrow> exn + (string \<times> string) list" where
  "collect_vms vboxVms [] = Inr vboxVms"
| "collect_vms vboxVms ((name0, uuid0) # rest) =
     (case substr name0 1 (size_sub (length name0) 3) of
        Inl e \<Rightarrow> Inl e
      | Inr name \<Rightarrow>
         (case substr uuid0 0 (size_sub (length uuid0) 1) of
            Inl e \<Rightarrow> Inl e
          | Inr uuid' \<Rightarrow>
             if str_find name ''<inaccessible>'' \<noteq> None then collect_vms vboxVms rest
             else collect_vms (map_put uuid' name vboxVms) rest))"

text \<open>
  Step 3: the loop over the registry. \<open>i\<close> is the position of the iterator. After a
  deletion the iterator is set to \<^verbatim>\<open>begin()\<close>, and the \<^verbatim>\<open>++it\<close> of the
  \<^verbatim>\<open>for\<close> statement then moves it to position 1. A deletion that removes nothing
  leaves the loop where it was, so the loop need not end: not returning is \<open>None\<close>.
\<close>

partial_function (option) remove_unregistered ::
  "(string \<times> string) list \<Rightarrow> VBoxInstance \<Rightarrow> nat \<Rightarrow> VBoxInstance option" where
  "remove_unregistered vboxVms st i =
     (if length (sessions st) \<le> i then Some st
      else if map_of vboxVms (pm_get (parameters (heap st (snd (sessions st ! i)))) ''vboxid'')
              = None
      then
        (if length (sessions (sessionDelete st (snd (sessions st ! i)))) = 0
         then Some (sessionDelete st (snd (sessions st ! i)))
         else remove_unregistered vboxVms (sessionDelete st (snd (sessions st ! i))) (Suc 0))
      else remove_unregistered vboxVms st (Suc i))"

text \<open>
  Step 4: the loop over the open sessions. An erased element makes the list shorter,
  so this loop ends.
\<close>

function release_lost :: "VBoxInstance \<Rightarrow> nat \<Rightarrow> VBoxInstance" where
  "release_lost st i =
     (if length (openSessions st) \<le> i then st
      else if map_of (sessions st) (uuid (heap st (openSessions st ! i))) = None
      then
        (let sess = openSessions st ! i;
             st1 = st\<lparr>heap := (heap st)(sess := (heap st sess)\<lparr>destroyed := True\<rparr>),
                     openSessions := take i (openSessions st) @ drop (Suc i) (openSessions st)\<rparr>
         in if length (openSessions st1) = 0 then st1 else release_lost st1 (Suc 0))
      else release_lost st (Suc i))"
  by pat_completeness auto
termination
  by (relation "measures [\<lambda>(st, i). length (openSessions st),
                          \<lambda>(st, i). length (openSessions st) - i]") auto

declare release_lost.simps [simp del]

text \<open>
  The result of \<open>loadSessions\<close>: the instance as the call leaves it, with the status
  returned or the exception thrown. The calls on the progress task of this function
  change nothing in the instance; they are given by \<open>loadSessions_events\<close> below.
\<close>

definition loadSessions ::
  "exec \<Rightarrow> utilities \<Rightarrow> VBoxInstance \<Rightarrow> ((exn + hv_status) \<times> VBoxInstance) option" where
  "loadSessions exec U st =
     (let st0 = (if sessions st \<noteq> [] then st\<lparr>sessions := []\<rparr> else st);
          vbDiskSessions = enumFiles (disk st0) ''vbsess-'';
          st1 = load_disk st0 vbDiskSessions
      in case exec ''list vms'' of
           (ans, lines, err) \<Rightarrow>
             if ans \<noteq> 0 then Some (Inr HVE_QUERY_ERROR, st1)
             else
              (case collect_vms [] (tokenize U lines) of
                 Inl e \<Rightarrow> Some (Inl e, st1)
               | Inr vboxVms \<Rightarrow>
                  (case remove_unregistered vboxVms st1 0 of
                     None \<Rightarrow> None
                   | Some st3 \<Rightarrow> Some (Inr HVE_OK, release_lost st3 0))))"

subsection \<open>The host, the progress feedback and the collaborators\<close>

text \<open>
  A progress task (\<^verbatim>\<open>FiniteTaskPtr\<close>) is known by its label; a null pointer is
  \<open>None\<close>. Every call on a task is an event of the log \<open>progress\<close> of the host. The
  host also holds the hypervisor as it answers now (\<open>hv\<close>), the state-changing
  commands run on it (\<open>executed\<close>), the files of the temporary directory, the
  files deleted by \<^verbatim>\<open>remove\<close> and the alerts shown to the user.
\<close>

type_synonym task = string

datatype pf_event =
  SetMax nat | Doing string | Done string | Fail string "hv_status option"
  | Complete string | Begin string | MarkLengthy bool

record host =
  hv :: exec
  executed :: "string list"
  tmp_files :: "string list"
  removed :: "string list"
  progress :: "(task \<times> pf_event) list"
  alerts :: "string list"

definition emit :: "task option \<Rightarrow> pf_event \<Rightarrow> host \<Rightarrow> host" where
  "emit pf ev h = (case pf of None \<Rightarrow> h | Some t \<Rightarrow> h\<lparr>progress := progress h @ [(t, ev)]\<rparr>)"

fun emits :: "task option \<Rightarrow> pf_event list \<Rightarrow> host \<Rightarrow> host" where
  "emits pf [] h = h"
| "emits pf (ev # evs) h = emits pf evs (emit pf ev h)"

definition begin_task :: "task option \<Rightarrow> string \<Rightarrow> host \<Rightarrow> task option \<times> host" where
  "begin_task pf label h =
     (case pf of None \<Rightarrow> (None, h) | Some t \<Rightarrow> (Some label, emit pf (Begin label) h))"

definition alert :: "string \<Rightarrow> host \<Rightarrow> host" where
  "alert title h = h\<lparr>alerts := alerts h @ [title]\<rparr>"

text \<open>
  The collaborators outside the sources at hand, as parameters: the platform the code
  is compiled for, the user interaction (\<open>ui_confirm\<close> and \<open>ui_confirmLicense\<close> say
  whether the user answered \<^verbatim>\<open>UI_OK\<close>), the terminal found by \<^verbatim>\<open>getLinuxInfo\<close>,
  the commands that change the hypervisor (the exit code and the hypervisor
  afterwards), the keystore, the download provider (the status and the files
  afterwards) and the checksum of a file.
\<close>

record collaborators =
  linux :: bool
  vboxExists :: bool
  ui_present :: bool
  ui_confirm :: bool
  ui_confirmLicense :: bool
  terminalCmdline :: string
  system_call :: "string \<Rightarrow> exec \<Rightarrow> int \<times> exec"
  exec_install :: "string \<Rightarrow> exec \<Rightarrow> int \<times> exec"
  downloadHypervisorConfig :: "hv_status \<times> (string \<times> string) list"
  downloadFile :: "string \<Rightarrow> string \<Rightarrow> string list \<Rightarrow> hv_status \<times> string list"
  sha256_file :: "string \<Rightarrow> string"
  getTmpDir :: string
  getFilename :: "string \<Rightarrow> string"

text \<open>A number as an output stream prints it.\<close>

fun dec_nat :: "nat \<Rightarrow> string" where
  "dec_nat n =
     (if n < 10 then [''0123456789'' ! n]
      else dec_nat (n div 10) @ [''0123456789'' ! (n mod 10)])"

declare dec_nat.simps [simp del]

definition dec :: "int \<Rightarrow> string" where
  "dec i = (if i < 0 then CHR ''-'' # dec_nat (nat (- i)) else dec_nat (nat i))"

subsection \<open>validateIntegrity\<close>

text \<open>
  The loop over the lines of \<^verbatim>\<open>--version\<close>: whether no line made the function
  return false, and \<^verbatim>\<open>vboxDrvKernelLoaded\<close> as the loop leaves it.
\<close>

fun version_lines :: "bool \<Rightarrow> bool \<Rightarrow> string list \<Rightarrow> bool \<times> bool" where
  "version_lines lnx drv [] = (True, drv)"
| "version_lines lnx drv (l # ls) =
     (if str_find l ''WARNING'' \<noteq> None then
        (if lnx \<and> str_find l ''vboxdrv kernel module is not loaded'' \<noteq> None then
           (if str_find l ''ERROR'' \<noteq> None then (False, False)
            else version_lines lnx False ls)
         else (False, drv))
      else if str_find l ''ERROR'' \<noteq> None then (False, drv)
      else version_lines lnx drv ls)"

definition validateIntegrity ::
  "collaborators \<Rightarrow> utilities \<Rightarrow> exec \<Rightarrow> VBoxInstance \<Rightarrow> bool \<times> VBoxInstance" where
  "validateIntegrity C U exec st =
     (if \<not> vboxExists C then (False, st\<lparr>reflectionValid := False\<rparr>)
      else
       (case exec ''--version'' of
          (rc, out, err) \<Rightarrow>
           (case version_lines (linux C) (if linux C then True else vboxDrvKernelLoaded st) out of
              (ok, drv) \<Rightarrow>
               (let st1 = st\<lparr>vboxDrvKernelLoaded := drv\<rparr> in
                if \<not> ok then (False, st1)
                else if err \<noteq> [] then (False, st1)
                else
                 (let st2 = (if out \<noteq> [] then st1\<lparr>version := version_set U (last out)\<rparr>
                             else st1);
                      st3 = st2\<lparr>hvGuestAdditions := []\<rparr>;
                      st4 =
                        (case exec ''list systemproperties'' of
                           (rc2, out2, err2) \<Rightarrow>
                             if rc2 = 0 then
                               (case map_of (parseLines U out2) ''Default Guest Additions ISO'' of
                                  None \<Rightarrow> st3
                                | Some p \<Rightarrow> st3\<lparr>hvGuestAdditions := systemPath U p\<rparr>)
                             else st3)
                  in (True, st4\<lparr>reflectionValid := True\<rparr>))))))"

subsection \<open>hasExtPack and installExtPack\<close>

definition hasExtPack :: "exec \<Rightarrow> bool" where
  "hasExtPack exec =
     (case exec ''list extpacks'' of
        (rc, lines, err) \<Rightarrow>
          list_ex (\<lambda>l. str_find l ''Oracle VM VirtualBox Extension Pack'' \<noteq> None) lines)"

definition installExtPack ::
  "collaborators \<Rightarrow> HVVersion \<Rightarrow> task option \<Rightarrow> host \<Rightarrow> hv_status \<times> host" where
  "installExtPack C ver pf h =
     (let h1 = emits pf [SetMax 5, Doing ''Preparing for extension pack installation''] h in
      if hasExtPack (hv h1) then (HVE_ALREADY_EXISTS, emit pf (Complete ''Already installed'') h1)
      else
       (let h2 = snd (begin_task pf ''Downloading hypervisor configuration'' h1) in
        case downloadHypervisorConfig C of
          (res, data) \<Rightarrow>
            if res \<noteq> HVE_OK then
              (if res = HVE_NOT_VALIDATED \<or> res = HVE_NOT_TRUSTED
               then (res, emit pf (Fail ''Hypervisor configuration integrity check failed''
                                    (Some res)) h2)
               else (res, emit pf (Fail ''Unable to fetch hypervisor configuration''
                                    (Some res)) h2))
            else
             (let oss = ''vbox-'' @ dec (major ver) @ ''.'' @ dec (minor ver) @ ''.''
                          @ dec (build ver);
                  kExtpackUrl = oss @ ''-extpack'';
                  kExtpackChecksum = oss @ ''-extpackChecksum''
              in
               if map_of data kExtpackUrl = None then
                 (HVE_EXTERNAL_ERROR,
                  emit pf (Fail ''No extensions package URL found'' (Some HVE_EXTERNAL_ERROR)) h2)
               else if map_of data kExtpackChecksum = None then
                 (HVE_EXTERNAL_ERROR,
                  emit pf (Fail ''No extensions package checksum found''
                            (Some HVE_EXTERNAL_ERROR)) h2)
               else
                (let h3 = snd (begin_task pf ''Downloading extension pack'' h2);
                     tmpExtpackFile =
                       getTmpDir C @ ''/'' @ getFilename C (pm_get data kExtpackUrl)
                 in
                  case downloadFile C (pm_get data kExtpackUrl) tmpExtpackFile (tmp_files h3) of
                    (res2, files) \<Rightarrow>
                     (let h4 = h3\<lparr>tmp_files := files\<rparr> in
                      if res2 \<noteq> HVE_OK then
                        (res2, emit pf (Fail ''Unable to download extension pack'' (Some res2)) h4)
                      else
                       (let h5 = emit pf (Doing ''Validating extension pack integrity'') h4;
                            checksum = sha256_file C tmpExtpackFile
                        in
                         if checksum \<noteq> pm_get data kExtpackChecksum then
                           (HVE_NOT_VALIDATED,
                            emit pf (Fail ''Extension pack integrity was not validated''
                                      (Some HVE_NOT_VALIDATED)) h5)
                         else
                          (let h6 = emits pf [Done ''Extension pack integrity validated'',
                                              Doing ''Installing extension pack'',
                                              MarkLengthy True] h5;
                               cmd = ''extpack install '' @ [CHR 0x22] @ tmpExtpackFile
                                       @ [CHR 0x22]
                           in
                            case exec_install C cmd (hv h6) of
                              (res3, hv') \<Rightarrow>
                               (let h7 = h6\<lparr>hv := hv', executed := executed h6 @ [cmd]\<rparr> in
                                if res3 \<noteq> 0 then
                                  (HVE_EXTERNAL_ERROR,
                                   emits pf [Fail ''Extension pack failed to install''
                                               (Some HVE_EXTERNAL_ERROR),
                                             MarkLengthy False] h7)
                                else
                                 (let h8 = emits pf [MarkLengthy False,
                                                     Done ''Installed extension pack'',
                                                     Doing ''Cleaning-up''] h7;
                                      h9 = h8\<lparr>tmp_files :=
                                                filter (\<lambda>f. f \<noteq> tmpExtpackFile) (tmp_files h8),
                                              removed := removed h8 @ [tmpExtpackFile]\<rparr>
                                  in (HVE_OK,
                                      emits pf [Done ''Cleaned-up'',
                                                Complete ''Extension pack installed successfully'']
                                        h9))))))))))"

subsection \<open>waitTillReady\<close>

text \<open>
  The repair of the kernel driver, compiled in on Linux only. The first component is
  the result when the function returns here, \<open>None\<close> when it goes on. Calling
  \<^verbatim>\<open>ui->alert\<close> on a null \<^verbatim>\<open>ui\<close> is undefined in C++; the model reports it as
  an error.
\<close>

definition driver_check ::
  "collaborators \<Rightarrow> utilities \<Rightarrow> task option \<Rightarrow> VBoxInstance \<Rightarrow> host
     \<Rightarrow> (exn + bool) option \<times> VBoxInstance \<times> host" where
  "driver_check C U pf st h =
     (if linux C \<and> \<not> vboxDrvKernelLoaded st then
        (if ui_present C \<and> \<not> ui_confirm C then
           (Some (Inr False), st,
            emit pf (Fail ''vboxdrv kernel module is not loaded'' None)
              (alert ''Virtualbox kernel driver problem'' h))
         else if terminalCmdline C = [] then
           (if \<not> ui_present C then (Some (Inl NullDeref), st, h)
            else (Some (Inr False), st,
                  emit pf (Fail ''Could not find a usable terminal emulator'' None)
                    (alert ''Could not fix the problem'' h)))
         else
          (case system_call C
                  (terminalCmdline C @ [CHR 0x22] @ ''sudo /etc/init.d/vboxdrv setup''
                     @ [CHR 0x22])
                  (hv h) of
             (res, hv') \<Rightarrow>
              (let h1 = h\<lparr>hv := hv'\<rparr> in
               if res < 0 then
                 (if \<not> ui_present C then (Some (Inl NullDeref), st, h1)
                  else (Some (Inr False), st,
                        emit pf (Fail ''Virtualbox driver installation failed'' None)
                          (alert ''Could not fix the problem'' h1)))
               else
                (case validateIntegrity C U (hv h1) st of
                   (valid, st1) \<Rightarrow>
                     if \<not> (valid \<and> vboxDrvKernelLoaded st1) then
                       (if \<not> ui_present C then (Some (Inl NullDeref), st1, h1)
                        else (Some (Inr False), st1,
                              emit pf (Fail ''Could not validate hypervisor integrity after install''
                                        None)
                                (alert ''Could not fix the problem'' h1)))
                     else (None, st1, h1)))))
      else (None, st, h))"

text \<open>
  The calls \<open>loadSessions\<close> makes on its progress task, in their order, along the path
  the call takes: the pass stops after the first two when the query fails, after the
  next two when step 2 throws, and runs to the last one otherwise.
\<close>

definition loadSessions_events :: "exec \<Rightarrow> utilities \<Rightarrow> VBoxInstance \<Rightarrow> pf_event list" where
  "loadSessions_events exec U st =
     (let st0 = (if sessions st \<noteq> [] then st\<lparr>sessions := []\<rparr> else st);
          vbDiskSessions = enumFiles (disk st0) ''vbsess-'';
          st1 = load_disk st0 vbDiskSessions
      in [SetMax 4, Doing ''Loading sessions from disk''] @
         (case exec ''list vms'' of
            (ans, lines, err) \<Rightarrow>
              if ans \<noteq> 0 then []
              else
                [Done ''Sessions loaded'', Doing ''Loading sessions from hypervisor''] @
                (case collect_vms [] (tokenize U lines) of
                   Inl e \<Rightarrow> []
                 | Inr vboxVms \<Rightarrow>
                     [Done ''Sessions loaded'', Doing ''Cleaning-up expired sessions''] @
                     (case remove_unregistered vboxVms st1 0 of
                        None \<Rightarrow> []
                      | Some st3 \<Rightarrow>
                          [Done ''Sessions cleaned-up'', Doing ''Releasing old open sessions'',
                           Done ''Old open sessions released'']))))"

text \<open>
  The delayed loading of the sessions, with the task \<open>Loading sessions\<close> handed to
  \<^verbatim>\<open>loadSessions\<close>. The value \<^verbatim>\<open>loadSessions\<close> returns is not looked at; an
  exception it throws leaves the function.
\<close>

definition load_once ::
  "utilities \<Rightarrow> task option \<Rightarrow> VBoxInstance \<Rightarrow> host \<Rightarrow> (exn option \<times> VBoxInstance \<times> host) option"
  where
  "load_once U pf st h =
     (if \<not> sessionLoaded st then
        (case begin_task pf ''Loading sessions'' h of
           (pfLoading, h1) \<Rightarrow>
             (case loadSessions (hv h1) U st of
                None \<Rightarrow> None
              | Some (Inl e, st1) \<Rightarrow>
                  Some (Some e, st1, emits pfLoading (loadSessions_events (hv h1) U st) h1)
              | Some (Inr rc, st1) \<Rightarrow>
                  Some (None, st1\<lparr>sessionLoaded := True\<rparr>,
                        emits pfLoading (loadSessions_events (hv h1) U st) h1)))
      else Some (None, st, emit pf (Done ''Sessions are loaded'') h))"

definition waitTillReady ::
  "collaborators \<Rightarrow> utilities \<Rightarrow> task option \<Rightarrow> VBoxInstance \<Rightarrow> host
     \<Rightarrow> ((exn + bool) \<times> VBoxInstance \<times> host) option" where
  "waitTillReady C U pf st h =
     (case driver_check C U pf st (emit pf (SetMax 3) h) of
        (Some r, st1, h1) \<Rightarrow> Some (r, st1, h1)
      | (None, st1, h1) \<Rightarrow>
         (case load_once U pf st1 (emit pf (Done ''VirtualBox driver in place'') h1) of
            None \<Rightarrow> None
          | Some (Some e, st2, h2) \<Rightarrow> Some (Inl e, st2, h2)
          | Some (None, st2, h2) \<Rightarrow>
             if \<not> hasExtPack (hv h2) then
               (case begin_task pf ''Installing extension pack'' h2 of
                  (pfInstall, h3) \<Rightarrow>
                    if ui_present C \<and> \<not> ui_confirmLicense C then
                      Some (Inr False, st2,
                            emit pf (Fail ''User denied Oracle PUEL license'' None) h3)
                    else
                     (case installExtPack C (version st2) pfInstall h3 of
                        (res, h4) \<Rightarrow>
                          Some (Inr True, st2, emit pf (Complete ''Hypervisor is ready'') h4)))
             else
               Some (Inr True, st2,
                     emits pf [Done ''Extension pack is installed'',
                               Complete ''Hypervisor is ready''] h2)))"

subsection \<open>Invariants of the registry\<close>

text \<open>
  Every session of the open list is present in the registry under its uuid.
  \<open>open_allocated\<close> says that every reference of the open list has been handed out,
  as every pointer of the code has. \<open>same_uuid_open\<close> counts the sessions of the open
  list that have a given uuid. \<open>registry_keyed\<close> says that every entry of the
  registry is filed under the uuid of its session, as step 1 of \<open>loadSessions\<close>
  files them. \<open>loadable_uuids\<close> are the uuids of the descriptors that step 1
  accepts.
\<close>

definition open_registered :: "VBoxInstance \<Rightarrow> bool" where
  "open_registered st =
     list_all (\<lambda>s. map_of (sessions st) (uuid (heap st s)) \<noteq> None) (openSessions st)"

definition open_allocated :: "VBoxInstance \<Rightarrow> bool" where
  "open_allocated st = list_all (\<lambda>s. s < next_ref st) (openSessions st)"

definition same_uuid_open :: "(nat \<Rightarrow> HVSession) \<Rightarrow> string \<Rightarrow> nat list \<Rightarrow> nat" where
  "same_uuid_open h u os = length (filter (\<lambda>r. uuid (h r) = u) os)"

definition registry_keyed :: "VBoxInstance \<Rightarrow> bool" where
  "registry_keyed st =
     list_all (\<lambda>e. uuid (heap st (snd e)) = fst e \<and> snd e < next_ref st) (sessions st)"

definition loadable_uuids :: "(string \<times> LocalConfig) list \<Rightarrow> string list" where
  "loadable_uuids d =
     map (\<lambda>c. pm_get (entries c) ''uuid'')
       (filter (\<lambda>c. contains c ''name'' \<and> contains c ''uuid'')
          (map (forRuntime d) (enumFiles d ''vbsess-'')))"

text \<open>The key of the trusted configuration for a version of the hypervisor.\<close>

definition version_key :: "HVVersion \<Rightarrow> string" where
  "version_key ver =
     ''vbox-'' @ dec (major ver) @ ''.'' @ dec (minor ver) @ ''.'' @ dec (build ver)"

subsection \<open>Sample inputs\<close>

text \<open>
  Concrete inputs for the theorems below: a hypervisor that lists one machine
  \<open>v3\<close> and three rows of CPU identification, one that lists the machines
  \<open>v1\<close> and \<open>v2\<close>, stand-ins for the helpers of the
  utilities library that know these lines, descriptors on disk, and collaborators
  that deliver an extension pack whose checksum is not the expected one.
\<close>

definition sample_exec :: exec where
  "sample_exec cmd =
     (if cmd = ''list vms'' then (0, [[CHR 0x22] @ ''vm'' @ [CHR 0x22] @ '' {v3}''], [])
      else if cmd = ''list hostcpuids''
      then (0, [''00000000  0000000d 756e6547 6c65746e 49656e69'',
                ''00000001  000306a9 02100800 7fbae3ff bfebfbff'',
                ''80000001  00000000 00000000 00000001 28100800''], [])
      else (0, [], []))"

definition sample_exec_both :: exec where
  "sample_exec_both cmd =
     (if cmd = ''list vms''
      then (0, [[CHR 0x22] @ ''m1'' @ [CHR 0x22] @ '' {v1}'',
                [CHR 0x22] @ ''m2'' @ [CHR 0x22] @ '' {v2}''], [])
      else (0, [], []))"

definition sample_utilities :: utilities where
  "sample_utilities =
     \<lparr>trimSplit = (\<lambda>l.
        if l = ''00000000  0000000d 756e6547 6c65746e 49656e69''
        then [''00000000'', ''0000000d'', ''756e6547'', ''6c65746e'', ''49656e69'']
        else if l = ''00000001  000306a9 02100800 7fbae3ff bfebfbff''
        then [''00000001'', ''000306a9'', ''02100800'', ''7fbae3ff'', ''bfebfbff'']
        else if l = ''80000001  00000000 00000000 00000001 28100800''
        then [''80000001'', ''00000000'', ''00000000'', ''00000001'', ''28100800'']
        else []),
      hex_ston = (\<lambda>s.
        if s = ''756e6547'' then 0x756e6547
        else if s = ''6c65746e'' then 0x6c65746e
        else if s = ''49656e69'' then 0x49656e69
        else if s = ''7fbae3ff'' then 0x7fbae3ff
        else if s = ''00000001'' then 0x00000001
        else 0),
      ston = (\<lambda>s. 0),
      parseLines = (\<lambda>ls. []),
      tokenize = map (\<lambda>l. (take 5 l, drop 6 l)),
      version_set = (\<lambda>s. \<lparr>major = 4, minor = 3, build = 12, verString = s\<rparr>),
      systemPath = (\<lambda>p. p)\<rparr>"

definition sample_caps :: HVINFO_CAPS where
  "sample_caps =
     \<lparr>cpu_vendor = [], cpu_featuresA = 0, cpu_featuresB = 0, cpu_featuresC = 0,
      cpu_featuresD = 0, cpu_stepping = 0, cpu_model = 0, cpu_family = 0, cpu_type = 0,
      cpu_exmodel = 0, cpu_exfamily = 0, cpu_hasVM = False, cpu_hasVT = False,
      cpu_has64bit = False, max_cpus = 0, max_memory = 0, max_disk = 0\<rparr>"

definition sample_config :: "string \<Rightarrow> string \<Rightarrow> string \<times> LocalConfig" where
  "sample_config u v =
     (''vbsess-'' @ u,
      \<lparr>entries = [(''name'', ''vm-'' @ u), (''uuid'', u), (''vboxid'', v)],
       saved_state = SS_OTHER 1\<rparr>)"

definition sample_instance :: "(string \<times> LocalConfig) list \<Rightarrow> VBoxInstance" where
  "sample_instance d =
     \<lparr>heap = (\<lambda>r. VBoxSession_new \<lparr>entries = [], saved_state = SS_MISSING\<rparr>), next_ref = 0,
      sessions = [], openSessions = [], disk = d, sessionLoaded = False,
      vboxDrvKernelLoaded = True, reflectionValid = True,
      version = \<lparr>major = 4, minor = 3, build = 12, verString = ''4.3.12''\<rparr>,
      hvGuestAdditions = []\<rparr>"

text \<open>
  An instance with the sessions \<open>a\<close> and \<open>b\<close> registered and open, each with
  \<open>n\<close> open handles and in state \<open>s\<close>, and the descriptors \<open>d\<close> on disk.
\<close>

definition sample_open :: "int \<Rightarrow> session_state \<Rightarrow> (string \<times> LocalConfig) list \<Rightarrow> VBoxInstance" where
  "sample_open n s d =
     (sample_instance d)
       \<lparr>heap := (heap (sample_instance d))
          (0 := (VBoxSession_new (snd (sample_config ''a'' ''v1'')))
                  \<lparr>instances := n, local_state := s\<rparr>,
           1 := (VBoxSession_new (snd (sample_config ''b'' ''v2'')))
                  \<lparr>instances := n, local_state := s\<rparr>),
        next_ref := 2,
        sessions := [(''a'', 0), (''b'', 1)],
        openSessions := [0, 1]\<rparr>"

definition sample_collaborators :: collaborators where
  "sample_collaborators =
     \<lparr>linux = False, vboxExists = True, ui_present = True, ui_confirm = True,
      ui_confirmLicense = True, terminalCmdline = [],
      system_call = (\<lambda>cmd e. (0, e)), exec_install = (\<lambda>cmd e. (0, e)),
      downloadHypervisorConfig =
        (HVE_OK, [(''vbox-4.3.12-extpack'', ''http://host/pack.vbox-extpack''),
                  (''vbox-4.3.12-extpackChecksum'', ''c0ffee'')]),
      downloadFile = (\<lambda>url dest files. (HVE_OK, dest # files)),
      sha256_file = (\<lambda>f. ''decade''),
      getTmpDir = ''/tmp'', getFilename = (\<lambda>url. ''pack.vbox-extpack'')\<rparr>"

definition sample_host :: host where
  "sample_host =
     \<lparr>hv = sample_exec, executed = [], tmp_files = [], removed = [], progress = [],
      alerts = []\<rparr>"

section \<open>Properties\<close>

subsection \<open>Strings and maps\<close>




lemma keys_map_put: "fst ` set (map_put k v m) = insert k (fst ` set m)"
  by (induction k v m rule: map_put.induct) (auto simp add: rev_image_eqI)

lemma map_of_map_put: "map_of (map_put k v m) k' = (if k' = k then Some v else map_of m k')"
  by (induction k v m rule: map_put.induct) auto

lemma map_of_map_erase: "k' \<noteq> k \<Longrightarrow> map_of (map_erase k m) k' = map_of m k'"
  by (induction m) auto

subsection \<open>getProperty\<close>

lemma getProperty_cases:
  "getProperty exec u n =
     (case exec (''guestproperty get '' @ u @ '' '' @ [CHR 0x22] @ n @ [CHR 0x22]) of
        (ans, lines, err) \<Rightarrow>
          if ans \<noteq> 0 \<or> lines = [] \<or> take 6 (hd lines) \<noteq> ''Value:'' then Inr []
          else if length (hd lines) < 7 then Inl OutOfRange
          else Inr (drop 7 (hd lines)))"
  by (auto simp add: getProperty_def substr_def substr_from_def split: prod.splits)

text \<open>
  C10: the claim says that getProperty returns a plain string for every input and
  never errors. When the query exits with 0 and its first output line is exactly
  \<open>Value:\<close>, the line passes the test on its first six characters and
  \<^verbatim>\<open>value.substr(7)\<close> is then called on a string of length 6, which throws
  \<^verbatim>\<open>std::out_of_range\<close>: the call ends in an exception, not in a string.
\<close>

theorem getProperty_bare_value_line:
  "getProperty (\<lambda>cmd. (0, [''Value:''], [])) u n = Inl OutOfRange"
  by (simp add: getProperty_def substr_def substr_from_def)

subsection \<open>getAllProperties\<close>







subsection \<open>loadSessions\<close>

lemma sessions_clear_id: "sessions st = [] \<Longrightarrow> st\<lparr>sessions := []\<rparr> = st"
  by (cases st) simp

lemma load_disk_frame:
  "openSessions (load_disk st names) = openSessions st \<and> disk (load_disk st names) = disk st"
  by (induction names arbitrary: st) (auto simp add: Let_def)

lemma load_disk_heap:
  "r < next_ref st \<Longrightarrow> heap (load_disk st names) r = heap st r"
  by (induction names arbitrary: st) (auto simp add: Let_def)

lemma load_disk_keys:
  "fst ` set (sessions (load_disk st names)) =
     fst ` set (sessions st) \<union>
     {pm_get (entries c) ''uuid'' | c n. n \<in> set names \<and> c = forRuntime (disk st) n
        \<and> contains c ''name'' \<and> contains c ''uuid''}"
proof (induction names arbitrary: st)
  case Nil
  then show ?case by simp
next
  case (Cons n names)
  let ?c = "forRuntime (disk st) n"
  show ?case
  proof (cases "contains ?c ''name'' \<and> contains ?c ''uuid''")
    case True
    then show ?thesis
      by (simp add: Let_def Cons.IH keys_map_put) blast
  next
    case False
    then show ?thesis
      by (simp add: Let_def Cons.IH) blast
  qed
qed

text \<open>
  C2: when the query for the live machines exits non-zero, loadSessions returns the
  query-error status; the registry is then exactly what step 1 loaded from the
  descriptors on disk (the old map is gone), and nothing of steps 3 and 4 has
  happened: the open list, the descriptors on disk and every session object that
  existed before are as they were. A pass whose query exits with 0 never returns the
  query-error status.
\<close>

theorem loadSessions_query_failure:
  "(fst (exec ''list vms'') \<noteq> 0 \<longrightarrow>
      (\<exists>st'. loadSessions exec U st = Some (Inr HVE_QUERY_ERROR, st')
         \<and> st' = load_disk (st\<lparr>sessions := []\<rparr>) (enumFiles (disk st) ''vbsess-'')
         \<and> fst ` set (sessions st') =
             {pm_get (entries c) ''uuid'' | c n.
                n \<in> set (enumFiles (disk st) ''vbsess-'') \<and> c = forRuntime (disk st) n
                \<and> contains c ''name'' \<and> contains c ''uuid''}
         \<and> openSessions st' = openSessions st
         \<and> disk st' = disk st
         \<and> (\<forall>r. r < next_ref st \<longrightarrow> heap st' r = heap st r)))
   \<and> (fst (exec ''list vms'') = 0 \<longrightarrow>
        (\<forall>st'. loadSessions exec U st \<noteq> Some (Inr HVE_QUERY_ERROR, st')))"
proof (intro conjI impI)
  assume fail: "fst (exec ''list vms'') \<noteq> 0"
  let ?st' = "load_disk (st\<lparr>sessions := []\<rparr>) (enumFiles (disk st) ''vbsess-'')"
  from fail have "loadSessions exec U st = Some (Inr HVE_QUERY_ERROR, ?st')"
    by (cases "exec ''list vms''") (simp add: loadSessions_def sessions_clear_id Let_def)
  moreover have "fst ` set (sessions ?st') =
             {pm_get (entries c) ''uuid'' | c n.
                n \<in> set (enumFiles (disk st) ''vbsess-'') \<and> c = forRuntime (disk st) n
                \<and> contains c ''name'' \<and> contains c ''uuid''}"
    by (simp add: load_disk_keys)
  moreover have "\<forall>r. r < next_ref st \<longrightarrow> heap ?st' r = heap st r"
    by (simp add: load_disk_heap)
  ultimately show "\<exists>st'. loadSessions exec U st = Some (Inr HVE_QUERY_ERROR, st')
         \<and> st' = ?st'
         \<and> fst ` set (sessions st') =
             {pm_get (entries c) ''uuid'' | c n.
                n \<in> set (enumFiles (disk st) ''vbsess-'') \<and> c = forRuntime (disk st) n
                \<and> contains c ''name'' \<and> contains c ''uuid''}
         \<and> openSessions st' = openSessions st
         \<and> disk st' = disk st
         \<and> (\<forall>r. r < next_ref st \<longrightarrow> heap st' r = heap st r)"
    by (simp add: load_disk_frame)
next
  assume ok: "fst (exec ''list vms'') = 0"
  then show "\<forall>st'. loadSessions exec U st \<noteq> Some (Inr HVE_QUERY_ERROR, st')"
    by (cases "exec ''list vms''")
       (auto simp add: loadSessions_def Let_def split: sum.splits option.splits)
qed

theorem loadSessions_query_failure_witness:
  "map_option (\<lambda>(res, st'). (res, map fst (sessions st'), openSessions st'))
     (loadSessions (\<lambda>cmd. (1, [], [])) sample_utilities
        (sample_open 1 (SS_OTHER 1) [sample_config ''a'' ''v1'']))
   = Some (Inr HVE_QUERY_ERROR, [''a''], [0, 1])"
proof -
  have "fst ((\<lambda>cmd. (1 :: int, [] :: string list, [] :: string)) ''list vms'') \<noteq> 0" by simp
  with loadSessions_query_failure
         [of "\<lambda>cmd. (1, [], [])" sample_utilities
             "sample_open 1 (SS_OTHER 1) [sample_config ''a'' ''v1'']"]
  have "loadSessions (\<lambda>cmd. (1, [], [])) sample_utilities
          (sample_open 1 (SS_OTHER 1) [sample_config ''a'' ''v1''])
        = Some (Inr HVE_QUERY_ERROR,
            load_disk ((sample_open 1 (SS_OTHER 1) [sample_config ''a'' ''v1''])\<lparr>sessions := []\<rparr>)
              (enumFiles (disk (sample_open 1 (SS_OTHER 1) [sample_config ''a'' ''v1'']))
                 ''vbsess-''))"
    by blast
  then show ?thesis
    by (simp add: sample_open_def sample_instance_def sample_config_def enumFiles_def
          forRuntime_def contains_def pm_get_def Let_def)
qed

text \<open>
  C1: the claim says that after a completed pass no session is left in the registry
  whose \<open>vboxid\<close> is absent from the map of live machines. With the descriptors of
  the sessions \<open>a\<close>, \<open>b\<close> and \<open>c\<close> on disk (machines \<open>v1\<close>, \<open>v2\<close>, \<open>v3\<close>)
  and a hypervisor that lists only \<open>v3\<close>, step 3 deletes \<open>a\<close>, sets the iterator to
  \<^verbatim>\<open>begin()\<close>, and the \<^verbatim>\<open>++it\<close> of the loop steps over \<open>b\<close>, which is now
  first: the pass returns 0 and \<open>b\<close> stays registered, although \<open>v2\<close> is not in
  the map.
\<close>

theorem loadSessions_leaves_orphan:
  "map_option
     (\<lambda>(res, st'). (res, map (\<lambda>(k, s). (k, pm_get (parameters (heap st' s)) ''vboxid''))
                            (sessions st')))
     (loadSessions sample_exec sample_utilities
        (sample_instance
           [sample_config ''a'' ''v1'', sample_config ''b'' ''v2'', sample_config ''c'' ''v3'']))
   = Some (Inr HVE_OK, [(''b'', ''v2''), (''c'', ''v3'')])
   \<and> collect_vms [] (tokenize sample_utilities (fst (snd (sample_exec ''list vms''))))
       = Inr [(''v3'', ''vm'')]"
  by (simp add: loadSessions_def sample_utilities_def sample_instance_def sample_config_def
        sample_exec_def enumFiles_def forRuntime_def contains_def VBoxSession_new_def
        pm_get_def remove_unregistered.simps release_lost.simps sessionDelete_def clear_file_def Let_def
        substr_def size_sub_def)

subsection \<open>installExtPack\<close>

lemma emit_frame [simp]:
  "hv (emit pf ev h) = hv h" "executed (emit pf ev h) = executed h"
  "tmp_files (emit pf ev h) = tmp_files h" "removed (emit pf ev h) = removed h"
  "alerts (emit pf ev h) = alerts h"
  by (simp_all add: emit_def split: option.splits)

lemma emits_frame [simp]:
  "hv (emits pf evs h) = hv h" "executed (emits pf evs h) = executed h"
  "tmp_files (emits pf evs h) = tmp_files h" "removed (emits pf evs h) = removed h"
  "alerts (emits pf evs h) = alerts h"
  by (induction evs arbitrary: h; simp)+

lemma begin_task_frame [simp]:
  "hv (snd (begin_task pf l h)) = hv h" "executed (snd (begin_task pf l h)) = executed h"
  "tmp_files (snd (begin_task pf l h)) = tmp_files h"
  "removed (snd (begin_task pf l h)) = removed h"
  "alerts (snd (begin_task pf l h)) = alerts h"
  by (simp_all add: begin_task_def split: option.splits)

lemma installExtPack_mismatch:
  assumes "\<not> hasExtPack (hv h)"
    and "downloadHypervisorConfig C = (HVE_OK, data)"
    and "map_of data (version_key ver @ ''-extpack'') = Some url"
    and "map_of data (version_key ver @ ''-extpackChecksum'') = Some expected"
    and "downloadFile C url (getTmpDir C @ ''/'' @ getFilename C url) (tmp_files h)
           = (HVE_OK, files)"
    and "sha256_file C (getTmpDir C @ ''/'' @ getFilename C url) \<noteq> expected"
  shows "fst (installExtPack C ver pf h) = HVE_NOT_VALIDATED"
    and "hv (snd (installExtPack C ver pf h)) = hv h"
    and "executed (snd (installExtPack C ver pf h)) = executed h"
    and "tmp_files (snd (installExtPack C ver pf h)) = files"
    and "removed (snd (installExtPack C ver pf h)) = removed h"
  using assms
  by (simp_all add: installExtPack_def Let_def version_key_def pm_get_def)

lemma installExtPack_removes_only_on_success:
  "fst (installExtPack C ver pf h) \<noteq> HVE_OK \<longrightarrow>
     removed (snd (installExtPack C ver pf h)) = removed h"
  by (simp add: installExtPack_def Let_def split: prod.split)

text \<open>
  C7: when the pipeline has come to the checksum (no extension pack is installed,
  the trusted configuration was fetched and holds both keys, the download
  succeeded) and the checksum of the downloaded file differs from the expected one,
  installExtPack returns NotValidated; the installer command is not run, so the
  hypervisor is as it was and hasExtPack is still false; the downloaded file is left
  where the download put it and nothing is removed. For every input, a call that
  does not return with success has removed no file.
\<close>

theorem installExtPack_checksum_mismatch:
  assumes "\<not> hasExtPack (hv h)"
    and "downloadHypervisorConfig C = (HVE_OK, data)"
    and "map_of data (version_key ver @ ''-extpack'') = Some url"
    and "map_of data (version_key ver @ ''-extpackChecksum'') = Some expected"
    and "downloadFile C url (getTmpDir C @ ''/'' @ getFilename C url) (tmp_files h)
           = (HVE_OK, files)"
    and "sha256_file C (getTmpDir C @ ''/'' @ getFilename C url) \<noteq> expected"
  shows "fst (installExtPack C ver pf h) = HVE_NOT_VALIDATED
     \<and> executed (snd (installExtPack C ver pf h)) = executed h
     \<and> hv (snd (installExtPack C ver pf h)) = hv h
     \<and> \<not> hasExtPack (hv (snd (installExtPack C ver pf h)))
     \<and> tmp_files (snd (installExtPack C ver pf h)) = files
     \<and> removed (snd (installExtPack C ver pf h)) = removed h
     \<and> (\<forall>C' ver' pf' h'. fst (installExtPack C' ver' pf' h') \<noteq> HVE_OK \<longrightarrow>
           removed (snd (installExtPack C' ver' pf' h')) = removed h')"
  using installExtPack_mismatch [OF assms, of pf] assms(1)
    installExtPack_removes_only_on_success
  by simp

lemma dec_sample: "dec 4 = ''4''" "dec 3 = ''3''" "dec 12 = ''12''"
  by (simp_all add: dec_def dec_nat.simps)

theorem installExtPack_checksum_mismatch_witness:
  "fst (installExtPack sample_collaborators
          \<lparr>major = 4, minor = 3, build = 12, verString = ''4.3.12''\<rparr> None sample_host)
     = HVE_NOT_VALIDATED
   \<and> tmp_files (snd (installExtPack sample_collaborators
          \<lparr>major = 4, minor = 3, build = 12, verString = ''4.3.12''\<rparr> None sample_host))
     = [''/tmp/pack.vbox-extpack'']"
proof -
  let ?ver = "\<lparr>major = 4, minor = 3, build = 12, verString = ''4.3.12''\<rparr>"
  let ?data = "[(''vbox-4.3.12-extpack'', ''http://host/pack.vbox-extpack''),
                (''vbox-4.3.12-extpackChecksum'', ''c0ffee'')]"
  have key: "version_key ?ver = ''vbox-4.3.12''"
    by (simp add: version_key_def dec_sample)
  have 1: "\<not> hasExtPack (hv sample_host)"
    by (simp add: hasExtPack_def sample_host_def sample_exec_def)
  have 2: "downloadHypervisorConfig sample_collaborators = (HVE_OK, ?data)"
    by (simp add: sample_collaborators_def)
  have 3: "map_of ?data (version_key ?ver @ ''-extpack'') = Some ''http://host/pack.vbox-extpack''"
    by (simp add: key)
  have 4: "map_of ?data (version_key ?ver @ ''-extpackChecksum'') = Some ''c0ffee''"
    by (simp add: key)
  have 5: "downloadFile sample_collaborators ''http://host/pack.vbox-extpack''
             (getTmpDir sample_collaborators @ ''/''
                @ getFilename sample_collaborators ''http://host/pack.vbox-extpack'')
             (tmp_files sample_host)
           = (HVE_OK, [''/tmp/pack.vbox-extpack''])"
    by (simp add: sample_collaborators_def sample_host_def)
  have 6: "sha256_file sample_collaborators
             (getTmpDir sample_collaborators @ ''/''
                @ getFilename sample_collaborators ''http://host/pack.vbox-extpack'')
           \<noteq> ''c0ffee''"
    by (simp add: sample_collaborators_def)
  from installExtPack_checksum_mismatch [OF 1 2 3 4 5 6, of None]
  show ?thesis by simp
qed

subsection \<open>waitTillReady\<close>

text \<open>
  C6: the claim says that a failure of the installation of the extension pack is
  reported by the workflow instead of overall completion and success. With the
  sessions already loaded, no extension pack installed, the license accepted and a
  downloaded pack whose checksum does not match, installExtPack fails with
  NotValidated on its own task, its return value is dropped, and waitTillReady still
  reports \<open>Hypervisor is ready\<close> as completed and returns true.
\<close>

theorem waitTillReady_ignores_install_failure:
  "map_option (\<lambda>(r, st, h). (r, progress h, executed h))
     (waitTillReady sample_collaborators sample_utilities (Some ''ready'')
        ((sample_instance [])\<lparr>sessionLoaded := True\<rparr>) sample_host)
   = Some (Inr True,
       [(''ready'', SetMax 3),
        (''ready'', Done ''VirtualBox driver in place''),
        (''ready'', Done ''Sessions are loaded''),
        (''ready'', Begin ''Installing extension pack''),
        (''Installing extension pack'', SetMax 5),
        (''Installing extension pack'', Doing ''Preparing for extension pack installation''),
        (''Installing extension pack'', Begin ''Downloading hypervisor configuration''),
        (''Installing extension pack'', Begin ''Downloading extension pack''),
        (''Installing extension pack'', Doing ''Validating extension pack integrity''),
        (''Installing extension pack'',
           Fail ''Extension pack integrity was not validated'' (Some HVE_NOT_VALIDATED)),
        (''ready'', Complete ''Hypervisor is ready'')],
       [])
   \<and> fst (installExtPack sample_collaborators
             (version ((sample_instance [])\<lparr>sessionLoaded := True\<rparr>))
             (Some ''Installing extension pack'') sample_host)
       = HVE_NOT_VALIDATED"
  by (simp add: waitTillReady_def driver_check_def load_once_def sample_collaborators_def
        sample_instance_def sample_host_def sample_exec_def hasExtPack_def installExtPack_def
        emit_def begin_task_def Let_def dec_sample pm_get_def)

subsection \<open>getCapabilities\<close>

lemma cpuid_rows_snoc:
  "cpuid_rows U caps (xs @ [x]) =
     (case cpuid_rows U caps xs of Inl e \<Rightarrow> Inl e | Inr c \<Rightarrow> cpuid_row U c x)"
  by (induction xs arbitrary: caps) (auto split: sum.splits)

lemma last_row_snoc:
  "last_row U leaf (xs @ [x]) =
     (if trimSplit U x \<noteq> [] \<and> hd (trimSplit U x) = leaf then Some (trimSplit U x)
      else last_row U leaf xs)"
  by (simp add: last_row_def)

lemma mask_consts:
  "(0xFF :: 32 word) = mask 8"
  "(0xFF00 :: 32 word) = push_bit 8 (mask 8)"
  "(0xFF0000 :: 32 word) = push_bit 16 (mask 8)"
  "(0xFF000000 :: 32 word) = push_bit 24 (mask 8)"
  by (simp_all add: mask_eq_exp_minus_1 push_bit_eq_mult)

lemma drop_and_push_mask:
  "drop_bit n ((w :: 32 word) AND push_bit n (mask 8)) = take_bit 8 (drop_bit n w)"
  by (rule bit_word_eqI) (auto simp add: bit_simps dest: bit_imp_le_length)

lemma to_char_take_bit: "to_char (take_bit 8 w) = char_of (unat w)"
  by (simp add: to_char_def unsigned_take_bit_eq char_of_take_bit_eq)

lemma byte_chars:
  "to_char (w AND 0xFF) = char_of (unat w)"
  "to_char (drop_bit 8 (w AND 0xFF00)) = char_of (unat (drop_bit 8 w))"
  "to_char (drop_bit 16 (w AND 0xFF0000)) = char_of (unat (drop_bit 16 w))"
  "to_char (drop_bit 24 (w AND 0xFF000000)) = char_of (unat (drop_bit 24 w))"
  unfolding mask_consts drop_and_push_mask to_char_take_bit
  by (simp_all add: take_bit_eq_mask [symmetric] to_char_take_bit)

lemma le_chars_bytes:
  "le_chars w =
     [to_char (w AND 0xFF), to_char (drop_bit 8 (w AND 0xFF00)),
      to_char (drop_bit 16 (w AND 0xFF0000)), to_char (drop_bit 24 (w AND 0xFF000000))]"
  by (simp add: le_chars_def byte_chars)

lemma flag_bits:
  "(w AND 0x20 \<noteq> 0) = bit (w :: 32 word) 5"
  "(w AND 0x2 \<noteq> 0) = bit (w :: 32 word) 1"
  "(w AND 0x20000000 \<noteq> 0) = bit (w :: 32 word) 29"
  using and_exp_eq_0_iff_not_bit [of w 5] and_exp_eq_0_iff_not_bit [of w 1]
    and_exp_eq_0_iff_not_bit [of w 29]
  by simp_all

lemma cpuid_row_fields:
  assumes "cpuid_row U caps x = Inr c"
  shows "cpu_vendor c =
           (if trimSplit U x \<noteq> [] \<and> hd (trimSplit U x) = ''00000000''
            then le_chars (hex_ston U (trimSplit U x ! 2))
                   @ le_chars (hex_ston U (trimSplit U x ! 4))
                   @ le_chars (hex_ston U (trimSplit U x ! 3)) @ [CHR 0x00]
            else cpu_vendor caps)"
    and "cpu_featuresA c =
           (if trimSplit U x \<noteq> [] \<and> hd (trimSplit U x) = ''00000001''
            then hex_ston U (trimSplit U x ! 3) else cpu_featuresA caps)"
    and "cpu_featuresC c =
           (if trimSplit U x \<noteq> [] \<and> hd (trimSplit U x) = ''80000001''
            then hex_ston U (trimSplit U x ! 3) else cpu_featuresC caps)"
  using assms
  by (auto simp add: cpuid_row_def Let_def le_chars_bytes hd_conv_nth split: if_splits)

lemma cpuid_rows_fields:
  "cpuid_rows U caps lines = Inr c \<Longrightarrow>
     cpu_vendor c =
       (case last_row U ''00000000'' lines of
          None \<Rightarrow> cpu_vendor caps
        | Some p \<Rightarrow> le_chars (hex_ston U (p ! 2)) @ le_chars (hex_ston U (p ! 4))
                     @ le_chars (hex_ston U (p ! 3)) @ [CHR 0x00]) \<and>
     cpu_featuresA c =
       (case last_row U ''00000001'' lines of
          None \<Rightarrow> cpu_featuresA caps | Some p \<Rightarrow> hex_ston U (p ! 3)) \<and>
     cpu_featuresC c =
       (case last_row U ''80000001'' lines of
          None \<Rightarrow> cpu_featuresC caps | Some p \<Rightarrow> hex_ston U (p ! 3))"
proof (induction lines arbitrary: c rule: rev_induct)
  case Nil
  then show ?case by (simp add: last_row_def)
next
  case (snoc x xs)
  from snoc.prems obtain c0
    where c0: "cpuid_rows U caps xs = Inr c0" and x: "cpuid_row U c0 x = Inr c"
    by (auto simp add: cpuid_rows_snoc split: sum.splits)
  show ?case
    using snoc.IH [OF c0] cpuid_row_fields [OF x]
    by (simp add: last_row_snoc)
qed

lemma system_limits_cpu:
  "cpu_vendor (system_limits U caps l) = cpu_vendor caps"
  "cpu_hasVT (system_limits U caps l) = cpu_hasVT caps"
  "cpu_has64bit (system_limits U caps l) = cpu_has64bit caps"
  by (simp_all add: system_limits_def Let_def split: option.splits)

lemma cpuid_row_returns:
  assumes "trimSplit U l = [] \<or> hd (trimSplit U l) \<notin> {''00000000'', ''00000001'', ''80000001''}
             \<or> 5 \<le> length (trimSplit U l)"
  shows "\<exists>c. cpuid_row U caps l = Inr c"
proof (cases "trimSplit U l = []")
  case True
  then show ?thesis by (simp add: cpuid_row_def)
next
  case False
  then have "hd (trimSplit U l) = trimSplit U l ! 0" by (simp add: hd_conv_nth)
  with False assms show ?thesis by (auto simp add: cpuid_row_def Let_def)
qed

lemma cpuid_rows_returns:
  assumes "list_all (\<lambda>l. trimSplit U l = []
             \<or> hd (trimSplit U l) \<notin> {''00000000'', ''00000001'', ''80000001''}
             \<or> 5 \<le> length (trimSplit U l)) lines"
  shows "\<exists>c. cpuid_rows U caps lines = Inr c"
  using assms
proof (induction lines arbitrary: caps)
  case Nil
  then show ?case by simp
next
  case (Cons l lines)
  from Cons.prems obtain c where c: "cpuid_row U caps l = Inr c"
    using cpuid_row_returns [of U l caps] by auto
  from Cons.prems Cons.IH [of c] obtain c' where "cpuid_rows U c lines = Inr c'"
    by auto
  with c show ?case by simp
qed

text \<open>
  C8: whenever the CPU identification query succeeds with some rows, and every row
  of one of the leaves \<open>00000000\<close>, \<open>00000001\<close> and \<open>80000001\<close> has its leaf and
  four registers (five parts), getCapabilities returns, and in the capabilities it
  returns the vendor string is the twelve characters decoded, low byte first, from
  the third, fifth and fourth parts (EBX, EDX, ECX) of the row of leaf \<open>00000000\<close>,
  followed by the terminating zero; hardware virtualization is bit 5 of ECX of the
  row of leaf \<open>00000001\<close> or bit 1 of ECX of the row of leaf \<open>80000001\<close>; 64-bit
  support is bit 29 of ECX of the row of leaf \<open>80000001\<close>. Where a leaf has several
  rows the last one counts; where it has none the field keeps the value the caller
  passed in.
\<close>

theorem getCapabilities_cpuid:
  assumes "exec ''list hostcpuids'' = (0, lines, e)" and "lines \<noteq> []"
    and "list_all (\<lambda>l. trimSplit U l = []
             \<or> hd (trimSplit U l) \<notin> {''00000000'', ''00000001'', ''80000001''}
             \<or> 5 \<le> length (trimSplit U l)) lines"
  shows "\<exists>rc caps'. getCapabilities exec U caps = Inr (rc, caps') \<and>
         cpu_vendor caps' =
           (case last_row U ''00000000'' lines of
              None \<Rightarrow> cpu_vendor caps
            | Some p \<Rightarrow> le_chars (hex_ston U (p ! 2)) @ le_chars (hex_ston U (p ! 4))
                         @ le_chars (hex_ston U (p ! 3)) @ [CHR 0x00]) \<and>
         cpu_hasVT caps' =
           (bit (case last_row U ''00000001'' lines of
                   None \<Rightarrow> cpu_featuresA caps | Some p \<Rightarrow> hex_ston U (p ! 3)) 5
            \<or> bit (case last_row U ''80000001'' lines of
                     None \<Rightarrow> cpu_featuresC caps | Some p \<Rightarrow> hex_ston U (p ! 3)) 1) \<and>
         cpu_has64bit caps' =
           bit (case last_row U ''80000001'' lines of
                  None \<Rightarrow> cpu_featuresC caps | Some p \<Rightarrow> hex_ston U (p ! 3)) 29"
proof -
  from cpuid_rows_returns [OF assms(3)]
  obtain c where c: "cpuid_rows U caps lines = Inr c" by blast
  obtain ans2 lines2 err2 where ex: "exec ''list systemproperties'' = (ans2, lines2, err2)"
    by (cases "exec ''list systemproperties''")
  define caps' where
    "caps' = (if ans2 \<noteq> 0 \<or> lines2 = [] then update_flags c
              else system_limits U (update_flags c) lines2)"
  define rc where
    "rc = (if ans2 \<noteq> 0 then HVE_QUERY_ERROR
           else if lines2 = [] then HVE_EXTERNAL_ERROR else HVE_OK)"
  from assms(1,2) c ex have ret: "getCapabilities exec U caps = Inr (rc, caps')"
    by (simp add: getCapabilities_def Let_def caps'_def rc_def)
  have "cpu_vendor caps' = cpu_vendor c \<and>
      cpu_hasVT caps' = (bit (cpu_featuresA c) 5 \<or> bit (cpu_featuresC c) 1) \<and>
      cpu_has64bit caps' = bit (cpu_featuresC c) 29"
    by (simp add: caps'_def system_limits_cpu update_flags_def flag_bits)
  with cpuid_rows_fields [OF c] ret show ?thesis by simp
qed

lemma le_chars_sample:
  "le_chars 0x756e6547 = ''Genu''" "le_chars 0x49656e69 = ''ineI''"
  "le_chars 0x6c65746e = ''ntel''"
  by (simp_all add: le_chars_def char_of_eq_iff)

lemma bits_sample:
  "bit (0x7fbae3ff :: 32 word) 5" "\<not> bit (0x00000001 :: 32 word) 1"
  "\<not> bit (0x00000001 :: 32 word) 29"
  by simp_all

theorem getCapabilities_cpuid_witness:
  "(case getCapabilities sample_exec sample_utilities sample_caps of
      Inl x \<Rightarrow> False
    | Inr (rc, caps') \<Rightarrow>
        cpu_vendor caps' = ''GenuineIntel'' @ [CHR 0x00] \<and> cpu_hasVT caps'
        \<and> \<not> cpu_has64bit caps')"
proof -
  let ?lines = "[''00000000  0000000d 756e6547 6c65746e 49656e69'',
                ''00000001  000306a9 02100800 7fbae3ff bfebfbff'',
                ''80000001  00000000 00000000 00000001 28100800'']"
  have 1: "sample_exec ''list hostcpuids'' = (0, ?lines, [])"
    by (simp add: sample_exec_def)
  have 2: "?lines \<noteq> []" by simp
  have 3: "list_all (\<lambda>l. trimSplit sample_utilities l = []
             \<or> hd (trimSplit sample_utilities l) \<notin> {''00000000'', ''00000001'', ''80000001''}
             \<or> 5 \<le> length (trimSplit sample_utilities l)) ?lines"
    by (simp add: sample_utilities_def)
  have rows:
    "last_row sample_utilities ''00000000'' ?lines
       = Some [''00000000'', ''0000000d'', ''756e6547'', ''6c65746e'', ''49656e69'']"
    "last_row sample_utilities ''00000001'' ?lines
       = Some [''00000001'', ''000306a9'', ''02100800'', ''7fbae3ff'', ''bfebfbff'']"
    "last_row sample_utilities ''80000001'' ?lines
       = Some [''80000001'', ''00000000'', ''00000000'', ''00000001'', ''28100800'']"
    by (simp_all add: last_row_def sample_utilities_def)
  have hex:
    "hex_ston sample_utilities ''756e6547'' = 0x756e6547"
    "hex_ston sample_utilities ''49656e69'' = 0x49656e69"
    "hex_ston sample_utilities ''6c65746e'' = 0x6c65746e"
    "hex_ston sample_utilities ''7fbae3ff'' = 0x7fbae3ff"
    "hex_ston sample_utilities ''00000001'' = 0x00000001"
    by (simp_all add: sample_utilities_def)
  from getCapabilities_cpuid
         [where exec = sample_exec and U = sample_utilities and caps = sample_caps, OF 1 2 3]
  obtain rc c where ret: "getCapabilities sample_exec sample_utilities sample_caps = Inr (rc, c)"
    and "cpu_vendor c = ''GenuineIntel'' @ [CHR 0x00] \<and> cpu_hasVT c \<and> \<not> cpu_has64bit c"
    unfolding rows by (auto simp add: hex le_chars_sample bits_sample)
  then show ?thesis by simp
qed

subsection \<open>The registry operations\<close>

lemma map_erase_gone: "distinct (map fst m) \<Longrightarrow> map_of (map_erase k m) k = None"
proof (induction m)
  case Nil
  then show ?case by simp
next
  case (Cons p m)
  obtain a b where p: "p = (a, b)" by (cases p)
  show ?case
  proof (cases "a = k")
    case True
    with Cons.prems p have "k \<notin> fst ` set m" by simp
    then have "map_of m k = None" by (simp add: map_of_eq_None_iff)
    with True p show ?thesis by simp
  next
    case False
    with Cons p show ?thesis by simp
  qed
qed

lemma set_map_erase: "set (map_erase k m) \<subseteq> set m"
  by (induction m) (auto split: if_splits)

lemma length_map_erase: "map_of m k \<noteq> None \<Longrightarrow> Suc (length (map_erase k m)) = length m"
  by (induction m) auto

lemma set_map_put: "set (map_put k v m) \<subseteq> insert (k, v) (set m)"
  by (induction k v m rule: map_put.induct) auto

lemma clear_file_gone: "map_of (clear_file name d) name = None"
  by (induction d) (auto simp add: clear_file_def)

lemma erase_open_cong:
  "(\<And>r. uuid (h' r) = uuid (h r)) \<Longrightarrow> erase_open h' u os = erase_open h u os"
  by (induction os) auto

lemma erase_open_subset: "set (erase_open h u os) \<subseteq> set os"
  by (induction os) auto

lemma erase_open_none:
  "\<not> list_ex (\<lambda>s. uuid (h s) = u) os \<Longrightarrow> erase_open h u os = os"
  by (induction os) auto

lemma same_uuid_open_erase:
  "same_uuid_open h u (erase_open h u' os) \<le> same_uuid_open h u os"
  by (induction os) (auto simp add: same_uuid_open_def)

lemma same_uuid_open_cong:
  "(\<And>r. uuid (h' r) = uuid (h r)) \<Longrightarrow> same_uuid_open h' u os = same_uuid_open h u os"
  by (simp add: same_uuid_open_def)

lemma erase_open_unique:
  "same_uuid_open h u os \<le> 1 \<Longrightarrow> r \<in> set (erase_open h u os) \<Longrightarrow> uuid (h r) \<noteq> u"
proof (induction os)
  case Nil
  then show ?case by simp
next
  case (Cons a os)
  show ?case
  proof (cases "uuid (h a) = u")
    case True
    with Cons.prems have "filter (\<lambda>r. uuid (h r) = u) os = []" and "r \<in> set os"
      by (simp_all add: same_uuid_open_def)
    then show ?thesis by (auto simp add: filter_empty_conv)
  next
    case False
    with Cons show ?thesis by (auto simp add: same_uuid_open_def)
  qed
qed

lemma sessionDelete_unfold:
  "sessionDelete st s =
     (case map_of (sessions st) (uuid (heap st s)) of
        None \<Rightarrow> st
      | Some sess \<Rightarrow>
          st\<lparr>openSessions := erase_open (heap st) (uuid (heap st s)) (openSessions st),
             heap := (if list_ex (\<lambda>r. uuid (heap st r) = uuid (heap st s)) (openSessions st)
                      then (heap st)(sess := (heap st sess)\<lparr>destroyed := True\<rparr>)
                      else heap st),
             sessions := map_erase (uuid (heap st s)) (sessions st),
             disk := clear_file (''vbsess-'' @ uuid (heap st s)) (disk st)\<rparr>)"
  by (cases st) (auto simp add: sessionDelete_def Let_def erase_open_none split: option.splits)

lemma sessionClose_unfold:
  "sessionClose st s =
     (if 1 < instances (heap st s)
      then st\<lparr>heap := (heap st)(s := (heap st s)\<lparr>instances := instances (heap st s) - 1\<rparr>)\<rparr>
      else if local_state (heap st s) = SS_MISSING
      then sessionDelete
             (st\<lparr>heap := (heap st)(s := (heap st s)
                      \<lparr>instances := instances (heap st s) - 1, aborted := True\<rparr>),
                 openSessions := erase_open (heap st) (uuid (heap st s)) (openSessions st)\<rparr>) s
      else st\<lparr>heap := (heap st)(s := (heap st s)
                      \<lparr>instances := instances (heap st s) - 1, aborted := True\<rparr>),
              openSessions := erase_open (heap st) (uuid (heap st s)) (openSessions st)\<rparr>)"
proof -
  have "erase_open ((heap st)(s := (heap st s)\<lparr>instances := n, aborted := True\<rparr>)) u os =
        erase_open (heap st) u os" for n u os
    by (rule erase_open_cong) simp
  then show ?thesis
    by (cases st) (simp add: sessionClose_def Let_def)
qed

lemma open_registered_cong:
  assumes "open_registered st" and "\<And>r. uuid (h r) = uuid (heap st r)"
    and "set os \<subseteq> set (openSessions st)"
  shows "open_registered (st\<lparr>heap := h, openSessions := os\<rparr>)"
  using assms by (auto simp add: open_registered_def list_all_iff)

lemma sessionDelete_open_registered:
  assumes "open_registered st"
    and "same_uuid_open (heap st) (uuid (heap st s)) (openSessions st) \<le> 1"
  shows "open_registered (sessionDelete st s)"
proof (cases "map_of (sessions st) (uuid (heap st s))")
  case None
  with assms show ?thesis by (simp add: sessionDelete_unfold)
next
  case (Some sess)
  define u where "u = uuid (heap st s)"
  define h where "h = (if list_ex (\<lambda>r. uuid (heap st r) = u) (openSessions st)
            then (heap st)(sess := (heap st sess)\<lparr>destroyed := True\<rparr>) else heap st)"
  define os where "os = erase_open (heap st) u (openSessions st)"
  have same: "uuid (h r) = uuid (heap st r)" for r by (simp add: h_def)
  have sub: "set os \<subseteq> set (openSessions st)"
    unfolding os_def by (rule erase_open_subset)
  have "list_all (\<lambda>r. map_of (map_erase u (sessions st)) (uuid (h r)) \<noteq> None) os"
    unfolding list_all_iff
  proof
    fix r assume r: "r \<in> set os"
    then have "uuid (heap st r) \<noteq> u"
      using erase_open_unique [of "heap st" u "openSessions st" r] assms(2)
      by (simp add: os_def u_def)
    moreover from r sub assms(1) have "map_of (sessions st) (uuid (heap st r)) \<noteq> None"
      by (auto simp add: open_registered_def list_all_iff)
    ultimately show "map_of (map_erase u (sessions st)) (uuid (h r)) \<noteq> None"
      by (simp add: map_of_map_erase same)
  qed
  moreover have "sessionDelete st s =
          st\<lparr>openSessions := os, heap := h, sessions := map_erase u (sessions st),
             disk := clear_file (''vbsess-'' @ u) (disk st)\<rparr>"
    using Some by (simp add: sessionDelete_unfold u_def h_def os_def)
  ultimately show ?thesis
    by (simp add: open_registered_def)
qed

lemma sessionClose_open_registered:
  assumes "open_registered st"
    and "1 < instances (heap st s) \<or> local_state (heap st s) \<noteq> SS_MISSING
         \<or> same_uuid_open (heap st) (uuid (heap st s))
              (erase_open (heap st) (uuid (heap st s)) (openSessions st)) \<le> 1"
  shows "open_registered (sessionClose st s)"
proof -
  let ?h1 = "(heap st)(s := (heap st s)\<lparr>instances := instances (heap st s) - 1\<rparr>)"
  let ?h2 = "(heap st)(s := (heap st s)
                      \<lparr>instances := instances (heap st s) - 1, aborted := True\<rparr>)"
  let ?os = "erase_open (heap st) (uuid (heap st s)) (openSessions st)"
  have 1: "open_registered (st\<lparr>heap := ?h1\<rparr>)"
    using assms(1) by (auto simp add: open_registered_def list_all_iff)
  have 3: "open_registered (st\<lparr>heap := ?h2, openSessions := ?os\<rparr>)"
    by (rule open_registered_cong [OF assms(1)]) (simp_all add: erase_open_subset)
  show ?thesis
  proof (cases "1 < instances (heap st s) \<or> local_state (heap st s) \<noteq> SS_MISSING")
    case True
    with 1 3 show ?thesis by (auto simp add: sessionClose_unfold)
  next
    case False
    with assms(2) have "same_uuid_open (heap st) (uuid (heap st s)) ?os \<le> 1" by simp
    moreover have "same_uuid_open ?h2 u os = same_uuid_open (heap st) u os" for u os
      by (rule same_uuid_open_cong) simp
    ultimately have "same_uuid_open (heap (st\<lparr>heap := ?h2, openSessions := ?os\<rparr>))
                 (uuid (heap (st\<lparr>heap := ?h2, openSessions := ?os\<rparr>) s))
                 (openSessions (st\<lparr>heap := ?h2, openSessions := ?os\<rparr>)) \<le> 1"
      by simp
    from sessionDelete_open_registered [OF 3 this] False show ?thesis
      by (simp add: sessionClose_unfold)
  qed
qed

lemma allocateSession_open_registered:
  assumes "open_registered st" and "open_allocated st"
  shows "open_registered (snd (allocateSession st g))"
proof -
  from assms(2) have "\<And>r. r \<in> set (openSessions st) \<Longrightarrow> r \<noteq> next_ref st"
    by (auto simp add: open_allocated_def list_all_iff)
  with assms(1) show ?thesis
    by (auto simp add: allocateSession_def Let_def open_registered_def
          list_all_iff map_of_map_put)
qed

lemma sessionOpen_open_registered:
  assumes "open_registered st" and "map_of (sessions st) (uuid (heap st s)) \<noteq> None"
  shows "open_registered (sessionOpen st s x)"
  using assms by (auto simp add: sessionOpen_def open_registered_def list_all_iff)

lemma loadable_keys:
  "fst ` set (sessions (load_disk (st\<lparr>sessions := []\<rparr>) (enumFiles (disk st) ''vbsess-'')))
     = set (loadable_uuids (disk st))"
  by (auto simp add: load_disk_keys loadable_uuids_def)

lemma loadSessions_failed_pass:
  assumes "open_allocated st" and "fst (exec ''list vms'') \<noteq> 0"
  shows "\<exists>st'. loadSessions exec U st = Some (Inr HVE_QUERY_ERROR, st')
           \<and> openSessions st' = openSessions st
           \<and> (open_registered st' \<longleftrightarrow>
                list_all (\<lambda>s. uuid (heap st s) \<in> set (loadable_uuids (disk st)))
                  (openSessions st))"
proof -
  let ?st' = "load_disk (st\<lparr>sessions := []\<rparr>) (enumFiles (disk st) ''vbsess-'')"
  from assms(2) have ret: "loadSessions exec U st = Some (Inr HVE_QUERY_ERROR, ?st')"
    by (cases "exec ''list vms''") (simp add: loadSessions_def sessions_clear_id Let_def)
  have os: "openSessions ?st' = openSessions st" by (simp add: load_disk_frame)
  have hp: "heap ?st' r = heap st r" if "r \<in> set (openSessions st)" for r
  proof -
    from that assms(1) have "r < next_ref (st\<lparr>sessions := []\<rparr>)"
      by (auto simp add: open_allocated_def list_all_iff)
    then show ?thesis
      using load_disk_heap [of r "st\<lparr>sessions := []\<rparr>"] by simp
  qed
  have reg: "map_of (sessions ?st') k \<noteq> None \<longleftrightarrow> k \<in> set (loadable_uuids (disk st))" for k
    using loadable_keys [of st] by (simp add: map_of_eq_None_iff)
  have "open_registered ?st' \<longleftrightarrow>
          list_all (\<lambda>s. uuid (heap st s) \<in> set (loadable_uuids (disk st))) (openSessions st)"
    unfolding open_registered_def os list_all_iff
  proof (intro ball_cong refl)
    fix r assume "r \<in> set (openSessions st)"
    from hp [OF this] reg [of "uuid (heap st r)"]
    show "(map_of (sessions ?st') (uuid (heap ?st' r)) \<noteq> None) =
          (uuid (heap st r) \<in> set (loadable_uuids (disk st)))"
      by simp
  qed
  with ret os show ?thesis by blast
qed

subsection \<open>The reference counts\<close>

lemma sessionDelete_instances:
  "instances (heap (sessionDelete st s) r) = instances (heap st r)"
  by (simp add: sessionDelete_unfold split: option.splits)

lemma sessionClose_instances:
  "instances (heap (sessionClose st s) r) =
     (if r = s then instances (heap st s) - 1 else instances (heap st r))"
  by (simp add: sessionClose_unfold sessionDelete_instances)

lemma allocateSession_instances:
  "instances (heap (snd (allocateSession st g)) r) =
     (if r = next_ref st then 0 else instances (heap st r))"
  by (simp add: allocateSession_def Let_def VBoxSession_new_def)

lemma sessionDelete_next_ref: "next_ref (sessionDelete st s) = next_ref st"
  by (simp add: sessionDelete_unfold split: option.splits)

lemma load_disk_next_ref: "next_ref st \<le> next_ref (load_disk st names)"
proof (induction names arbitrary: st)
  case Nil
  then show ?case by simp
next
  case (Cons n names)
  let ?c = "forRuntime (disk st) n"
  let ?st2 = "st\<lparr>heap := (heap st)(next_ref st := VBoxSession_new ?c),
                 next_ref := Suc (next_ref st),
                 sessions := map_put (pm_get (entries ?c) ''uuid'') (next_ref st) (sessions st)\<rparr>"
  from Cons [of st] Cons [of ?st2] show ?case
    by (simp add: Let_def)
qed

lemma load_disk_instances:
  "instances (heap (load_disk st names) r) =
     (if next_ref st \<le> r \<and> r < next_ref (load_disk st names) then 0
      else instances (heap st r))"
proof (induction names arbitrary: st)
  case Nil
  then show ?case by simp
next
  case (Cons n names)
  let ?c = "forRuntime (disk st) n"
  let ?st2 = "st\<lparr>heap := (heap st)(next_ref st := VBoxSession_new ?c),
                 next_ref := Suc (next_ref st),
                 sessions := map_put (pm_get (entries ?c) ''uuid'') (next_ref st) (sessions st)\<rparr>"
  show ?case
  proof (cases "contains ?c ''name'' \<and> contains ?c ''uuid''")
    case False
    with Cons [of st] show ?thesis by (auto simp add: Let_def)
  next
    case True
    have le: "Suc (next_ref st) \<le> next_ref (load_disk ?st2 names)"
      using load_disk_next_ref [of ?st2 names] by simp
    from True have "load_disk st (n # names) = load_disk ?st2 names"
      by (simp add: Let_def)
    with Cons [of ?st2] le show ?thesis
      by (auto simp add: VBoxSession_new_def)
  qed
qed

lemma release_lost_instances:
  "instances (heap (release_lost st i) r) = instances (heap st r)
   \<and> next_ref (release_lost st i) = next_ref st"
proof (induction st i rule: release_lost.induct)
  case (1 st i)
  show ?case
    by (subst (1 2) release_lost.simps) (use 1 in \<open>auto simp add: Let_def\<close>)
qed

lemma remove_unregistered_instances:
  assumes "remove_unregistered vms st i = Some st'"
  shows "instances (heap st' r) = instances (heap st r) \<and> next_ref st' = next_ref st"
proof (rule remove_unregistered.raw_induct
    [where P = "\<lambda>vms st i st'. instances (heap st' r) = instances (heap st r)
                  \<and> next_ref st' = next_ref st", OF _ assms])
  fix f vms st i st'
  assume IH: "\<And>vms st i st'. f vms st i = Some st' \<Longrightarrow>
                instances (heap st' r) = instances (heap st r) \<and> next_ref st' = next_ref st"
    and body: "(if length (sessions st) \<le> i then Some st
      else if map_of vms (pm_get (parameters (heap st (snd (sessions st ! i)))) ''vboxid'') = None
           then if length (sessions (sessionDelete st (snd (sessions st ! i)))) = 0
                then Some (sessionDelete st (snd (sessions st ! i)))
                else f vms (sessionDelete st (snd (sessions st ! i))) (Suc 0)
           else f vms st (Suc i)) = Some st'"
  from body show "instances (heap st' r) = instances (heap st r) \<and> next_ref st' = next_ref st"
    by (auto simp add: sessionDelete_instances sessionDelete_next_ref dest!: IH
          split: if_splits)
qed

subsection \<open>loadSessions returns\<close>

lemma load_disk_keyed: "registry_keyed st \<Longrightarrow> registry_keyed (load_disk st names)"
proof (induction names arbitrary: st)
  case Nil
  then show ?case by simp
next
  case (Cons n names)
  let ?c = "forRuntime (disk st) n"
  let ?st2 = "st\<lparr>heap := (heap st)(next_ref st := VBoxSession_new ?c),
                 next_ref := Suc (next_ref st),
                 sessions := map_put (pm_get (entries ?c) ''uuid'') (next_ref st) (sessions st)\<rparr>"
  have mem: "e = (k, next_ref st) \<or> e \<in> set (sessions st)"
    if "e \<in> set (map_put k (next_ref st) (sessions st))" for e k
    using that set_map_put [of k "next_ref st" "sessions st"] by blast
  have "registry_keyed ?st2"
    unfolding registry_keyed_def list_all_iff
  proof
    fix e assume "e \<in> set (sessions ?st2)"
    then have "e = (pm_get (entries ?c) ''uuid'', next_ref st) \<or> e \<in> set (sessions st)"
      using mem by simp
    with Cons.prems show "uuid (heap ?st2 (snd e)) = fst e \<and> snd e < next_ref ?st2"
      by (auto simp add: registry_keyed_def list_all_iff VBoxSession_new_def)
  qed
  from Cons.IH [OF this] Cons.IH [OF Cons.prems] show ?case
    by (simp add: Let_def)
qed

lemma sessionDelete_keyed: "registry_keyed st \<Longrightarrow> registry_keyed (sessionDelete st s)"
  using set_map_erase [of "uuid (heap st s)" "sessions st"]
  by (auto simp add: sessionDelete_unfold registry_keyed_def list_all_iff split: option.splits)

lemma sessionDelete_shrinks:
  assumes "registry_keyed st" and "i < length (sessions st)"
  shows "length (sessions (sessionDelete st (snd (sessions st ! i)))) < length (sessions st)"
proof -
  let ?e = "sessions st ! i"
  from assms have e: "?e \<in> set (sessions st)" by simp
  with assms(1) have k: "uuid (heap st (snd ?e)) = fst ?e"
    by (auto simp add: registry_keyed_def list_all_iff)
  from e have "fst ?e \<in> fst ` set (sessions st)" by (rule imageI)
  then have some: "map_of (sessions st) (fst ?e) \<noteq> None"
    by (simp add: map_of_eq_None_iff)
  then obtain sess where "map_of (sessions st) (fst ?e) = Some sess" by blast
  with k length_map_erase [OF some] show ?thesis
    by (simp add: sessionDelete_unfold)
qed

lemma remove_unregistered_returns:
  "registry_keyed st \<Longrightarrow> \<exists>st'. remove_unregistered vms st i = Some st'"
proof (induction "length (sessions st)" arbitrary: st i rule: less_induct)
  case less
  show ?case
  proof (induction "length (sessions st) - i" arbitrary: i rule: less_induct)
    case inner: less
    show ?case
    proof (cases "length (sessions st) \<le> i")
      case True
      then show ?thesis by (subst remove_unregistered.simps) simp
    next
      case False
      let ?s = "snd (sessions st ! i)"
      show ?thesis
      proof (cases "map_of vms (pm_get (parameters (heap st ?s)) ''vboxid'') = None")
        case True
        from False have "length (sessions (sessionDelete st ?s)) < length (sessions st)"
          by (intro sessionDelete_shrinks less.prems) simp
        from less.hyps [OF this sessionDelete_keyed [OF less.prems], of "Suc 0"]
        obtain st' where "remove_unregistered vms (sessionDelete st ?s) (Suc 0) = Some st'"
          by blast
        with True False show ?thesis
          by (subst remove_unregistered.simps) auto
      next
        case orphan: False
        from False have "length (sessions st) - Suc i < length (sessions st) - i" by simp
        from inner.hyps [OF this]
        obtain st' where "remove_unregistered vms st (Suc i) = Some st'" by blast
        with orphan False show ?thesis
          by (subst remove_unregistered.simps) auto
      qed
    qed
  qed
qed

lemma loadSessions_cases:
  "\<exists>res st'. loadSessions exec U st = Some (res, st')
     \<and> (\<forall>r. instances (heap st' r) =
              (if next_ref st \<le> r \<and> r < next_ref st' then 0 else instances (heap st r)))"
proof -
  define st1 where "st1 = load_disk (st\<lparr>sessions := []\<rparr>) (enumFiles (disk st) ''vbsess-'')"
  have i1: "instances (heap st1 r) =
      (if next_ref st \<le> r \<and> r < next_ref st1 then 0 else instances (heap st r))" for r
    unfolding st1_def using load_disk_instances [of "st\<lparr>sessions := []\<rparr>"] by simp
  have "registry_keyed (st\<lparr>sessions := []\<rparr>)" by (simp add: registry_keyed_def)
  then have "registry_keyed st1" unfolding st1_def by (rule load_disk_keyed)
  then have ret: "\<exists>st3. remove_unregistered vms st1 0 = Some st3" for vms
    by (rule remove_unregistered_returns)
  obtain ans lines err where ex: "exec ''list vms'' = (ans, lines, err)"
    by (cases "exec ''list vms''")
  have unf: "loadSessions exec U st =
      (if ans \<noteq> 0 then Some (Inr HVE_QUERY_ERROR, st1)
       else (case collect_vms [] (tokenize U lines) of
               Inl e \<Rightarrow> Some (Inl e, st1)
             | Inr vboxVms \<Rightarrow>
                 (case remove_unregistered vboxVms st1 0 of
                    None \<Rightarrow> None
                  | Some st3 \<Rightarrow> Some (Inr HVE_OK, release_lost st3 0))))"
  proof -
    have st0: "(if sessions st \<noteq> [] then st\<lparr>sessions := []\<rparr> else st) = st\<lparr>sessions := []\<rparr>"
      by (simp add: sessions_clear_id)
    have e: "load_disk (st\<lparr>sessions := []\<rparr>)
               (enumFiles (disk (st\<lparr>sessions := []\<rparr>)) ''vbsess-'') = st1"
      by (simp add: st1_def)
    show ?thesis
      unfolding loadSessions_def Let_def st0 e ex by simp
  qed
  show ?thesis
  proof (cases "ans \<noteq> 0 \<or> (\<exists>e. collect_vms [] (tokenize U lines) = Inl e)")
    case True
    then have "\<exists>res. loadSessions exec U st = Some (res, st1)"
      unfolding unf by auto
    with i1 show ?thesis by blast
  next
    case False
    then obtain vms where vms: "collect_vms [] (tokenize U lines) = Inr vms"
      by (cases "collect_vms [] (tokenize U lines)") auto
    from ret [of vms] obtain st3 where st3: "remove_unregistered vms st1 0 = Some st3" by blast
    have "loadSessions exec U st = Some (Inr HVE_OK, release_lost st3 0)"
      unfolding unf using False vms st3 by simp
    moreover have "instances (heap (release_lost st3 0) r) =
      (if next_ref st \<le> r \<and> r < next_ref (release_lost st3 0) then 0
       else instances (heap st r))" for r
      using i1 [of r] remove_unregistered_instances [OF st3, of r]
        release_lost_instances [of st3 0 r]
      by simp
    ultimately show ?thesis by blast
  qed
qed

subsection \<open>Open sessions and the registry\<close>

lemma open_allocated_kept:
  assumes "open_allocated st"
  shows "open_allocated (snd (allocateSession st g))
     \<and> (s < next_ref st \<longrightarrow> open_allocated (sessionOpen st s x))
     \<and> open_allocated (sessionDelete st s)
     \<and> open_allocated (sessionClose st s)"
proof -
  have sub: "set (erase_open h u (openSessions st)) \<subseteq> set (openSessions st)" for h u
    by (rule erase_open_subset)
  have del: "open_allocated (sessionDelete st' s)" if "open_allocated st'" for st'
    using that erase_open_subset [of "heap st'" "uuid (heap st' s)" "openSessions st'"]
    by (auto simp add: sessionDelete_unfold open_allocated_def list_all_iff
          split: option.splits)
  have "open_allocated (snd (allocateSession st g))"
    using assms by (auto simp add: allocateSession_def Let_def open_allocated_def list_all_iff)
  moreover have "s < next_ref st \<longrightarrow> open_allocated (sessionOpen st s x)"
    using assms by (auto simp add: sessionOpen_def open_allocated_def list_all_iff)
  moreover have "open_allocated (sessionClose st s)"
  proof -
    let ?st2 = "st\<lparr>heap := (heap st)(s := (heap st s)
                      \<lparr>instances := instances (heap st s) - 1, aborted := True\<rparr>),
                  openSessions := erase_open (heap st) (uuid (heap st s)) (openSessions st)\<rparr>"
    have 2: "open_allocated ?st2"
      using assms sub [of "heap st" "uuid (heap st s)"]
      by (auto simp add: open_allocated_def list_all_iff)
    from assms 2 del [OF 2] show ?thesis
      by (auto simp add: sessionClose_unfold open_allocated_def)
  qed
  ultimately show ?thesis using del [OF assms] by simp
qed

text \<open>
  C3, as stated, fails. Take the sessions \<open>a\<close> and \<open>b\<close>, registered and open.
  When their descriptors are no longer on disk, a pass of loadSessions whose query
  fails reloads the registry (now empty) and returns before step 4, with both
  sessions still in the open list; a pass whose query succeeds reaches step 4, which
  erases \<open>a\<close> from the open list and leaves \<open>b\<close> in it, with the registry empty.
  When both descriptors are on disk and the hypervisor lists both machines, a
  completed pass registers new session objects (2 and 3) under the uuids \<open>a\<close> and
  \<open>b\<close> and keeps the old ones (0 and 1) in the open list. Opening the registered
  session 2 puts a second session with the uuid \<open>a\<close> in the open list; deleting it
  then erases the first entry with that uuid (session 0) and the registry key, and
  session 2 stays in the open list, unregistered.
\<close>

theorem open_registered_loadSessions_counterexample:
  "open_registered (sample_open 1 (SS_OTHER 1) [])
   \<and> map_option (\<lambda>(res, st'). (res, open_registered st', map fst (sessions st'), openSessions st'))
        (loadSessions (\<lambda>cmd. (1, [], [])) sample_utilities (sample_open 1 (SS_OTHER 1) []))
       = Some (Inr HVE_QUERY_ERROR, False, [], [0, 1])
   \<and> map_option (\<lambda>(res, st'). (res, open_registered st', map fst (sessions st'), openSessions st'))
        (loadSessions sample_exec sample_utilities (sample_open 1 (SS_OTHER 1) []))
       = Some (Inr HVE_OK, False, [], [1])
   \<and> map_option
        (\<lambda>(res, st').
           (res, sessions st', open_registered st',
            open_registered (sessionOpen st' 2 (SS_OTHER 1)),
            openSessions (sessionOpen st' 2 (SS_OTHER 1)),
            open_registered (sessionDelete (sessionOpen st' 2 (SS_OTHER 1)) 2),
            sessions (sessionDelete (sessionOpen st' 2 (SS_OTHER 1)) 2),
            openSessions (sessionDelete (sessionOpen st' 2 (SS_OTHER 1)) 2)))
        (loadSessions sample_exec_both sample_utilities
           (sample_open 1 (SS_OTHER 1) [sample_config ''a'' ''v1'', sample_config ''b'' ''v2'']))
       = Some (Inr HVE_OK, [(''a'', 2), (''b'', 3)], True, True, [0, 1, 2],
               False, [(''b'', 3)], [1, 2])"
  by (simp add: open_registered_def loadSessions_def sample_open_def
        sample_instance_def sample_config_def sample_utilities_def sample_exec_def
        sample_exec_both_def enumFiles_def forRuntime_def contains_def
        VBoxSession_new_def pm_get_def Let_def substr_def size_sub_def
        sessionOpen_def sessionDelete_def clear_file_def
        remove_unregistered.simps release_lost.simps)

text \<open>
  C3, amended: allocate, open of a registered session, close and delete keep every
  session of the open list present in the registry under its uuid, provided that this
  held before the operation and that, when delete runs (called directly, or by close
  on a Missing session after close has erased its own entry), the open list holds at
  most one session with the uuid of the deleted one. A close that does not delete
  needs no proviso. A pass of loadSessions whose query fails returns
  \<open>HVE_QUERY_ERROR\<close> with the open list as it was; after it the property holds
  exactly when the uuid of every open session is the uuid of a descriptor that step 1
  loads. For allocate and for the failed pass, which create session objects, the open
  list is taken to hold only sessions created before the call (\<open>open_allocated\<close>,
  which allocate, open, close and delete keep).
\<close>

theorem open_sessions_stay_registered:
  "(open_registered st \<and> open_allocated st \<longrightarrow> open_registered (snd (allocateSession st g)))
   \<and> (open_registered st \<and> map_of (sessions st) (uuid (heap st s)) \<noteq> None \<longrightarrow>
        open_registered (sessionOpen st s x))
   \<and> (open_registered st
        \<and> same_uuid_open (heap st) (uuid (heap st s)) (openSessions st) \<le> 1 \<longrightarrow>
        open_registered (sessionDelete st s))
   \<and> (open_registered st
        \<and> (1 < instances (heap st s) \<or> local_state (heap st s) \<noteq> SS_MISSING) \<longrightarrow>
        open_registered (sessionClose st s))
   \<and> (open_registered st
        \<and> same_uuid_open (heap st) (uuid (heap st s))
             (erase_open (heap st) (uuid (heap st s)) (openSessions st)) \<le> 1 \<longrightarrow>
        open_registered (sessionClose st s))
   \<and> (open_allocated st \<and> fst (exec ''list vms'') \<noteq> 0 \<longrightarrow>
        (\<exists>st'. loadSessions exec U st = Some (Inr HVE_QUERY_ERROR, st')
           \<and> openSessions st' = openSessions st
           \<and> (open_registered st' \<longleftrightarrow>
                list_all (\<lambda>r. uuid (heap st r) \<in> set (loadable_uuids (disk st)))
                  (openSessions st))))"
proof (intro conjI impI)
  assume "open_registered st \<and> open_allocated st"
  then show "open_registered (snd (allocateSession st g))"
    by (simp add: allocateSession_open_registered)
next
  assume "open_registered st \<and> map_of (sessions st) (uuid (heap st s)) \<noteq> None"
  then show "open_registered (sessionOpen st s x)"
    by (intro sessionOpen_open_registered) simp_all
next
  assume "open_registered st
        \<and> same_uuid_open (heap st) (uuid (heap st s)) (openSessions st) \<le> 1"
  then show "open_registered (sessionDelete st s)"
    by (intro sessionDelete_open_registered) simp_all
next
  assume "open_registered st
        \<and> (1 < instances (heap st s) \<or> local_state (heap st s) \<noteq> SS_MISSING)"
  then show "open_registered (sessionClose st s)"
    by (intro sessionClose_open_registered) blast+
next
  assume "open_registered st
        \<and> same_uuid_open (heap st) (uuid (heap st s))
             (erase_open (heap st) (uuid (heap st s)) (openSessions st)) \<le> 1"
  then show "open_registered (sessionClose st s)"
    by (intro sessionClose_open_registered) blast+
next
  assume "open_allocated st \<and> fst (exec ''list vms'') \<noteq> 0"
  then show "\<exists>st'. loadSessions exec U st = Some (Inr HVE_QUERY_ERROR, st')
           \<and> openSessions st' = openSessions st
           \<and> (open_registered st' \<longleftrightarrow>
                list_all (\<lambda>r. uuid (heap st r) \<in> set (loadable_uuids (disk st)))
                  (openSessions st))"
    by (intro loadSessions_failed_pass) simp_all
qed

theorem open_sessions_stay_registered_witness:
  "open_registered (snd (allocateSession (sample_open 1 SS_MISSING []) ''c''))
   \<and> open_registered (sessionOpen (sample_open 1 SS_MISSING []) 1 (SS_OTHER 1))
   \<and> open_registered (sessionDelete (sample_open 1 SS_MISSING []) 0)
   \<and> open_registered (sessionClose (sample_open 2 SS_MISSING []) 0)
   \<and> open_registered (sessionClose (sample_open 1 SS_MISSING []) 0)
   \<and> (\<exists>st'. loadSessions (\<lambda>cmd. (1, [], [])) sample_utilities
               (sample_open 1 (SS_OTHER 1)
                  [sample_config ''a'' ''v1'', sample_config ''b'' ''v2''])
             = Some (Inr HVE_QUERY_ERROR, st')
         \<and> openSessions st' = [0, 1] \<and> open_registered st')"
proof -
  let ?st = "sample_open 1 SS_MISSING []"
  let ?st2 = "sample_open 2 SS_MISSING []"
  let ?std = "sample_open 1 (SS_OTHER 1) [sample_config ''a'' ''v1'', sample_config ''b'' ''v2'']"
  let ?ex = "\<lambda>cmd::string. (1::int, []::string list, []::string)"
  have reg: "open_registered ?st" and reg2: "open_registered ?st2"
    and alloc: "open_allocated ?st" and allocd: "open_allocated ?std"
    and key: "map_of (sessions ?st) (uuid (heap ?st 1)) \<noteq> None"
    and one: "same_uuid_open (heap ?st) (uuid (heap ?st 0)) (openSessions ?st) \<le> 1"
    and two: "1 < instances (heap ?st2 0)"
    and none: "same_uuid_open (heap ?st) (uuid (heap ?st 0))
                 (erase_open (heap ?st) (uuid (heap ?st 0)) (openSessions ?st)) \<le> 1"
    and os: "openSessions ?std = [0, 1]"
    and loadable: "list_all (\<lambda>r. uuid (heap ?std r) \<in> set (loadable_uuids (disk ?std)))
                     (openSessions ?std)"
    by (simp_all add: open_registered_def open_allocated_def same_uuid_open_def
          loadable_uuids_def enumFiles_def forRuntime_def contains_def
          sample_open_def sample_instance_def sample_config_def VBoxSession_new_def
          pm_get_def)
  note T = open_sessions_stay_registered
  from T [where st = ?st and g = "''c''", THEN conjunct1] reg alloc
  have 1: "open_registered (snd (allocateSession ?st ''c''))" by blast
  from T [where st = ?st and s = 1 and x = "SS_OTHER 1", THEN conjunct2, THEN conjunct1] reg key
  have 2: "open_registered (sessionOpen ?st 1 (SS_OTHER 1))" by blast
  from T [where st = ?st and s = 0, THEN conjunct2, THEN conjunct2, THEN conjunct1] reg one
  have 3: "open_registered (sessionDelete ?st 0)" by blast
  from T [where st = ?st2 and s = 0, THEN conjunct2, THEN conjunct2, THEN conjunct2,
          THEN conjunct1] reg2 two
  have 4: "open_registered (sessionClose ?st2 0)" by blast
  from T [where st = ?st and s = 0, THEN conjunct2, THEN conjunct2, THEN conjunct2,
          THEN conjunct2, THEN conjunct1] reg none
  have 5: "open_registered (sessionClose ?st 0)" by blast
  from T [where st = ?std and exec = ?ex and U = sample_utilities, THEN conjunct2,
          THEN conjunct2, THEN conjunct2, THEN conjunct2, THEN conjunct2] allocd
  have "\<exists>st'. loadSessions ?ex sample_utilities ?std = Some (Inr HVE_QUERY_ERROR, st')
           \<and> openSessions st' = openSessions ?std
           \<and> (open_registered st' \<longleftrightarrow>
                list_all (\<lambda>r. uuid (heap ?std r) \<in> set (loadable_uuids (disk ?std)))
                  (openSessions ?std))"
    by simp
  with loadable have 6: "\<exists>st'. loadSessions ?ex sample_utilities ?std
             = Some (Inr HVE_QUERY_ERROR, st')
         \<and> openSessions st' = [0, 1] \<and> open_registered st'"
    unfolding os by blast
  from 1 2 3 4 5 6 show ?thesis by blast
qed

text \<open>
  C4, as stated, fails. A session that is already open once (count 1) and whose
  state is Missing is opened and closed again: the count goes to 2 and back to 1,
  close returns after the decrement, and the session is still registered. The same
  with a session that is not Missing: it stays registered with count 1, not 0.
\<close>

theorem open_close_counterexample:
  "map fst (sessions (sessionClose (sessionOpen (sample_open 1 (SS_OTHER 1) []) 0 SS_MISSING) 0))
     = [''a'', ''b'']
   \<and> local_state (heap (sessionClose (sessionOpen (sample_open 1 (SS_OTHER 1) []) 0 SS_MISSING) 0) 0)
     = SS_MISSING
   \<and> instances (heap (sessionClose (sessionOpen (sample_open 1 (SS_OTHER 1) []) 0 (SS_OTHER 1)) 0) 0)
     = 1"
  by (simp add: sessionClose_def sessionOpen_def sample_open_def sample_instance_def
        sample_config_def VBoxSession_new_def pm_get_def Let_def)

text \<open>
  C4, amended: close decrements the count of open handles of the session. When the
  count is still positive nothing else happens. When it is zero (or below) the
  session is aborted and the first entry with its uuid is erased from the open list;
  if its state is then Missing the session is deleted (sessionDelete), otherwise the
  registry is as before. Consequently, for a registered session with no open handle
  (in a registry with distinct keys), open followed at once by close removes the
  session from the registry and its descriptor from the disk if the state open left
  it in is Missing, and otherwise leaves the registry as it was and the count at 0.
\<close>

theorem sessionClose_refcount:
  "instances (heap (sessionClose st s) s) = instances (heap st s) - 1
   \<and> (1 < instances (heap st s) \<longrightarrow>
        sessionClose st s =
          st\<lparr>heap := (heap st)(s := (heap st s)\<lparr>instances := instances (heap st s) - 1\<rparr>)\<rparr>)
   \<and> (instances (heap st s) \<le> 1 \<and> local_state (heap st s) \<noteq> SS_MISSING \<longrightarrow>
        sessionClose st s =
          st\<lparr>heap := (heap st)(s := (heap st s)
                  \<lparr>instances := instances (heap st s) - 1, aborted := True\<rparr>),
             openSessions := erase_open (heap st) (uuid (heap st s)) (openSessions st)\<rparr>)
   \<and> (instances (heap st s) \<le> 1 \<and> local_state (heap st s) = SS_MISSING \<longrightarrow>
        sessionClose st s =
          sessionDelete
            (st\<lparr>heap := (heap st)(s := (heap st s)
                    \<lparr>instances := instances (heap st s) - 1, aborted := True\<rparr>),
                openSessions := erase_open (heap st) (uuid (heap st s)) (openSessions st)\<rparr>) s)
   \<and> (instances (heap st s) = 0 \<and> map_of (sessions st) (uuid (heap st s)) = Some s
        \<and> distinct (map fst (sessions st)) \<longrightarrow>
        (x = SS_MISSING \<longrightarrow>
           map_of (sessions (sessionClose (sessionOpen st s x) s)) (uuid (heap st s)) = None
           \<and> map_of (disk (sessionClose (sessionOpen st s x) s))
                (''vbsess-'' @ uuid (heap st s)) = None)
        \<and> (x \<noteq> SS_MISSING \<longrightarrow>
             sessions (sessionClose (sessionOpen st s x) s) = sessions st
             \<and> instances (heap (sessionClose (sessionOpen st s x) s) s) = 0))"
proof (intro conjI impI)
  show "instances (heap (sessionClose st s) s) = instances (heap st s) - 1"
    by (simp add: sessionClose_instances)
next
  assume "1 < instances (heap st s)"
  then show "sessionClose st s =
          st\<lparr>heap := (heap st)(s := (heap st s)\<lparr>instances := instances (heap st s) - 1\<rparr>)\<rparr>"
    by (simp add: sessionClose_unfold)
next
  assume "instances (heap st s) \<le> 1 \<and> local_state (heap st s) \<noteq> SS_MISSING"
  then show "sessionClose st s =
          st\<lparr>heap := (heap st)(s := (heap st s)
                  \<lparr>instances := instances (heap st s) - 1, aborted := True\<rparr>),
             openSessions := erase_open (heap st) (uuid (heap st s)) (openSessions st)\<rparr>"
    by (simp add: sessionClose_unfold)
next
  assume "instances (heap st s) \<le> 1 \<and> local_state (heap st s) = SS_MISSING"
  then show "sessionClose st s =
          sessionDelete
            (st\<lparr>heap := (heap st)(s := (heap st s)
                    \<lparr>instances := instances (heap st s) - 1, aborted := True\<rparr>),
                openSessions := erase_open (heap st) (uuid (heap st s)) (openSessions st)\<rparr>) s"
    by (simp add: sessionClose_unfold)
next
  assume h: "instances (heap st s) = 0 \<and> map_of (sessions st) (uuid (heap st s)) = Some s
        \<and> distinct (map fst (sessions st))"
    and x: "x = SS_MISSING"
  from h x show "map_of (sessions (sessionClose (sessionOpen st s x) s)) (uuid (heap st s)) = None"
    by (simp add: sessionClose_unfold sessionOpen_def sessionDelete_unfold map_erase_gone)
  from h x show "map_of (disk (sessionClose (sessionOpen st s x) s))
                (''vbsess-'' @ uuid (heap st s)) = None"
    by (simp add: sessionClose_unfold sessionOpen_def sessionDelete_unfold clear_file_gone)
next
  assume h: "instances (heap st s) = 0 \<and> map_of (sessions st) (uuid (heap st s)) = Some s
        \<and> distinct (map fst (sessions st))"
    and x: "x \<noteq> SS_MISSING"
  from h x show "sessions (sessionClose (sessionOpen st s x) s) = sessions st"
    by (simp add: sessionClose_unfold sessionOpen_def)
  from h x show "instances (heap (sessionClose (sessionOpen st s x) s) s) = 0"
    by (simp add: sessionClose_instances sessionOpen_def)
qed

theorem sessionClose_refcount_witness:
  "map_of (sessions (sessionClose
       (sessionOpen ((sample_open 0 (SS_OTHER 1) [])\<lparr>openSessions := []\<rparr>) 0 SS_MISSING) 0)) ''a''
     = None
   \<and> sessions (sessionClose
       (sessionOpen ((sample_open 0 (SS_OTHER 1) [])\<lparr>openSessions := []\<rparr>) 0 (SS_OTHER 2)) 0)
     = [(''a'', 0), (''b'', 1)]
   \<and> instances (heap (sessionClose
       (sessionOpen ((sample_open 0 (SS_OTHER 1) [])\<lparr>openSessions := []\<rparr>) 0 (SS_OTHER 2)) 0) 0)
     = 0"
proof -
  let ?st = "(sample_open 0 (SS_OTHER 1) [])\<lparr>openSessions := []\<rparr>"
  have h: "instances (heap ?st 0) = 0 \<and> map_of (sessions ?st) (uuid (heap ?st 0)) = Some 0
        \<and> distinct (map fst (sessions ?st))"
    and u: "uuid (heap ?st 0) = ''a''" and s: "sessions ?st = [(''a'', 0), (''b'', 1)]"
    by (simp_all add: sample_open_def sample_instance_def sample_config_def
          VBoxSession_new_def pm_get_def)
  note T = sessionClose_refcount [THEN conjunct2, THEN conjunct2, THEN conjunct2,
               THEN conjunct2, rule_format]
  from T [of ?st 0 SS_MISSING, OF h]
  have 1: "map_of (sessions (sessionClose (sessionOpen ?st 0 SS_MISSING) 0)) ''a'' = None"
    unfolding u by simp
  from T [of ?st 0 "SS_OTHER 2", OF h]
  have 2: "sessions (sessionClose (sessionOpen ?st 0 (SS_OTHER 2)) 0) = [(''a'', 0), (''b'', 1)]
      \<and> instances (heap (sessionClose (sessionOpen ?st 0 (SS_OTHER 2)) 0) 0) = 0"
    unfolding s by simp
  from 1 2 show ?thesis by simp
qed

text \<open>
  C5, as stated, fails: close decrements the count without looking at it. A session
  with one open handle that is closed twice has the count 0 after the first close
  and -1 after the second.
\<close>

theorem sessionClose_negative_counterexample:
  "instances (heap (sample_open 1 (SS_OTHER 1) []) 0) = 1
   \<and> instances (heap (sessionClose (sample_open 1 (SS_OTHER 1) []) 0) 0) = 0
   \<and> instances (heap (sessionClose (sessionClose (sample_open 1 (SS_OTHER 1) []) 0) 0) 0)
       = - 1"
  by (simp add: sessionClose_instances sample_open_def sample_instance_def
        VBoxSession_new_def)

text \<open>
  C5, amended: close lowers the count of the session it is given by exactly one,
  whatever its value, and changes no other count; open raises the count of its
  session by one; delete changes no count; allocate and loadSessions (which always
  returns) give the sessions they create the count 0 and change no other count. So,
  from a state where no count is negative, no count is negative after allocate,
  open, delete and loadSessions, nor after a close of a session whose count is at
  least 1.
\<close>

theorem instances_never_negative:
  "(\<forall>r. instances (heap (sessionClose st s) r) =
          (if r = s then instances (heap st s) - 1 else instances (heap st r)))
   \<and> (\<forall>r. instances (heap (sessionOpen st s x) r) =
          (if r = s then instances (heap st s) + 1 else instances (heap st r)))
   \<and> (\<forall>r. instances (heap (sessionDelete st s) r) = instances (heap st r))
   \<and> (\<forall>r. instances (heap (snd (allocateSession st g)) r) =
          (if r = next_ref st then 0 else instances (heap st r)))
   \<and> (\<exists>res st'. loadSessions exec U st = Some (res, st')
          \<and> (\<forall>r. instances (heap st' r) =
                 (if next_ref st \<le> r \<and> r < next_ref st' then 0 else instances (heap st r))))
   \<and> ((\<forall>r. 0 \<le> instances (heap st r)) \<longrightarrow>
         (0 < instances (heap st s) \<longrightarrow> (\<forall>r. 0 \<le> instances (heap (sessionClose st s) r)))
       \<and> (\<forall>r. 0 \<le> instances (heap (sessionOpen st s x) r))
       \<and> (\<forall>r. 0 \<le> instances (heap (sessionDelete st s) r))
       \<and> (\<forall>r. 0 \<le> instances (heap (snd (allocateSession st g)) r))
       \<and> (\<forall>res st'. loadSessions exec U st = Some (res, st') \<longrightarrow>
             (\<forall>r. 0 \<le> instances (heap st' r))))"
proof -
  have op: "instances (heap (sessionOpen st s x) r) =
          (if r = s then instances (heap st s) + 1 else instances (heap st r))" for r
    by (simp add: sessionOpen_def)
  from loadSessions_cases [of exec U st] obtain res0 st0
    where l: "loadSessions exec U st = Some (res0, st0)"
      and li: "\<And>r. instances (heap st0 r) =
                 (if next_ref st \<le> r \<and> r < next_ref st0 then 0 else instances (heap st r))"
    by blast
  have nonneg: "0 \<le> instances (heap st' r)"
    if "\<forall>r. 0 \<le> instances (heap st r)" and "loadSessions exec U st = Some (res, st')"
    for res st' r
  proof -
    from that(2) l have "st' = st0" by simp
    with li [of r] that(1) show ?thesis by simp
  qed
  show ?thesis
  proof (intro conjI impI allI)
    show "\<exists>res st'. loadSessions exec U st = Some (res, st')
          \<and> (\<forall>r. instances (heap st' r) =
                 (if next_ref st \<le> r \<and> r < next_ref st' then 0 else instances (heap st r)))"
      using l li by blast
  next
    fix r assume "\<forall>r. 0 \<le> instances (heap st r)" and "0 < instances (heap st s)"
    then show "0 \<le> instances (heap (sessionClose st s) r)"
      by (simp add: sessionClose_instances)
  next
    fix r assume a: "\<forall>r. 0 \<le> instances (heap st r)"
    from a [rule_format, of r] a [rule_format, of s]
    show "0 \<le> instances (heap (sessionOpen st s x) r)"
      by (simp add: op)
  next
    fix res st' r
    assume "\<forall>r. 0 \<le> instances (heap st r)" and "loadSessions exec U st = Some (res, st')"
    then show "0 \<le> instances (heap st' r)" by (rule nonneg)
  qed (simp_all add: sessionClose_instances sessionDelete_instances
         allocateSession_instances op)
qed

theorem instances_never_negative_witness:
  "instances (heap (sessionClose (sample_open 1 (SS_OTHER 1) []) 0) 0) = 0
   \<and> instances (heap (sessionClose (sample_open 1 (SS_OTHER 1) []) 0) 1) = 1
   \<and> (\<forall>r. 0 \<le> instances (heap (sessionClose (sample_open 1 (SS_OTHER 1) []) 0) r))
   \<and> (\<forall>r. 0 \<le> instances (heap (sessionDelete (sample_open 1 (SS_OTHER 1) []) 0) r))
   \<and> (\<exists>res st'. loadSessions sample_exec sample_utilities (sample_open 1 (SS_OTHER 1) [])
                  = Some (res, st')
         \<and> (\<forall>r. 0 \<le> instances (heap st' r)))"
proof -
  let ?st = "sample_open 1 (SS_OTHER 1) []"
  have h: "\<forall>r. 0 \<le> instances (heap ?st r)"
    and i: "instances (heap ?st 0) = 1" and j: "instances (heap ?st 1) = 1"
    by (simp_all add: sample_open_def sample_instance_def VBoxSession_new_def)
  note T = instances_never_negative
    [where st = ?st and s = 0 and exec = sample_exec and U = sample_utilities]
  from T [THEN conjunct1] i j
  have 1: "instances (heap (sessionClose ?st 0) 0) = 0
         \<and> instances (heap (sessionClose ?st 0) 1) = 1"
    by simp
  from T [THEN conjunct2, THEN conjunct2, THEN conjunct2, THEN conjunct2, THEN conjunct2] h i
  have 2: "(\<forall>r. 0 \<le> instances (heap (sessionClose ?st 0) r))
       \<and> (\<forall>r. 0 \<le> instances (heap (sessionDelete ?st 0) r))
       \<and> (\<forall>res st'. loadSessions sample_exec sample_utilities ?st = Some (res, st') \<longrightarrow>
             (\<forall>r. 0 \<le> instances (heap st' r)))"
    by simp
  from T [THEN conjunct2, THEN conjunct2, THEN conjunct2, THEN conjunct2, THEN conjunct1]
  obtain res st' where "loadSessions sample_exec sample_utilities ?st = Some (res, st')"
    by blast
  with 1 2 show ?thesis by blast
qed

end
